theory Spec2Isabelle
  imports Main "HOL-Library.AList"
begin

section \<open>Strings as the source uses them\<close>

text \<open>
  JavaScript strings are sequences of code units; they are modelled as \<open>string\<close>
  (a list of characters). \<open>undefined\<close> is \<open>None\<close> of an option type.
\<close>

text \<open>\<open>String.prototype.indexOf\<close> for a one-character needle: the position of
  the first occurrence, \<open>-1\<close> when there is none.\<close>

fun indexOf :: "string \<Rightarrow> char \<Rightarrow> int" where
  "indexOf [] c = -1"
| "indexOf (x # xs) c =
     (if x = c then 0
      else (let r = indexOf xs c in if r = -1 then -1 else r + 1))"

text \<open>\<open>s.substring(0, e)\<close> for \<open>0 \<le> e\<close>: the first \<open>e\<close> code units.\<close>

definition substring0 :: "string \<Rightarrow> int \<Rightarrow> string" where
  "substring0 s e = take (nat e) s"

text \<open>\<open>s.endsWith(suf)\<close>.\<close>

definition endsWith :: "string \<Rightarrow> string \<Rightarrow> bool" where
  "endsWith s suf =
     (length suf \<le> length s \<and> drop (length s - length suf) s = suf)"

section \<open>The compiler worker: data\<close>

text \<open>
  A JavaScript \<open>Map\<close> is an association list: \<open>Map.set\<close> is \<open>AList.update\<close>
  (an existing key keeps its place and takes the new value, a new key goes to the end,
  which is the insertion order a \<open>Map\<close> iterates in), \<open>Map.get\<close> is \<open>map_of\<close>.
\<close>

type_synonym ('k, 'v) js_map = "('k \<times> 'v) list"

record SampleFile =
  name :: string
  content :: string
  contentType :: "string option"

type_synonym ModuleImportMap = "(string, string) js_map"

text \<open>The three shapes of \<open>FileRecord\<close>, told apart by their \<open>status\<close>:
  \<open>pending\<close>, \<open>resolved\<close> (\<open>originalUrl?\<close>, \<open>content\<close>) and \<open>redirected\<close>
  (\<open>redirectedUrl\<close>).\<close>

datatype FileRecord =
    Pending
  | Resolved "string option" string
  | Redirected string

type_synonym LoadedFiles = "(string, FileRecord) js_map"

record CompilerOptions =
  target :: string
  module_kind :: string
  experimentalDecorators :: bool
  skipDefaultLibCheck :: bool
  skipLibCheck :: bool
  moduleResolution :: string
  allowJs :: bool
  suppressOutputPathCheck :: bool
  lib :: "string list"

definition compilerOptions :: CompilerOptions where
  "compilerOptions =
     \<lparr> target = ''ES2017'', module_kind = ''ESNext'', experimentalDecorators = True,
       skipDefaultLibCheck = True, skipLibCheck = True, moduleResolution = ''NodeJs'',
       allowJs = True, suppressOutputPathCheck = True, lib = [''dom'', ''esnext''] \<rparr>"

text \<open>The syntax tree as far as the worker looks at it: a node is an import declaration,
  with its module specifier's text and its other children (modifiers, import clause), or
  any other node with its children.\<close>

datatype node =
    ImportDeclaration "node list" string
  | Node string "node list"

text \<open>What \<open>ModuleResolver.resolve\<close> returns: \<open>{type, url}\<close>.\<close>

record Resolution =
  res_type :: string
  res_url :: string

datatype DiagnosticCategory = Warning | Error | Suggestion | Message

datatype DiagnosticMessageChain = MessageChain string "DiagnosticMessageChain list"

datatype MessageText = PlainMessage string | ChainedMessage DiagnosticMessageChain

record Position =
  line :: nat
  character :: nat

record Range =
  range_start :: Position
  range_end :: Position

text \<open>\<open>ts.Diagnostic\<close>: \<open>source\<close>, \<open>file\<close>, \<open>start\<close> and \<open>length\<close> may be
  undefined.\<close>

record TsDiagnostic =
  ts_code :: int
  ts_source :: "string option"
  ts_messageText :: MessageText
  ts_category :: DiagnosticCategory
  ts_file :: "node option"
  ts_start :: "nat option"
  ts_length :: "nat option"

record LspDiagnostic =
  lsp_code :: int
  lsp_source :: string
  lsp_message :: string
  lsp_severity :: nat
  lsp_range :: Range

text \<open>\<open>ts.ScriptSnapshot.fromString\<close> wraps the text it is given.\<close>

datatype ScriptSnapshot = FromString "string option"

text \<open>The object a \<open>WorkerLanguageServiceHost\<close> offers to the language service.\<close>

record LanguageServiceHost =
  getCompilationSettings :: CompilerOptions
  getScriptFileNames :: "string list"
  getScriptVersion :: "string \<Rightarrow> string"
  host_fileExists :: "string \<Rightarrow> bool"
  host_readFile :: "string \<Rightarrow> string option"
  host_getScriptSnapshot :: "string \<Rightarrow> ScriptSnapshot option"
  getCurrentDirectory :: string
  getDefaultLibFileName :: string

text \<open>The calls the worker makes on its \<open>TypesFetcher\<close>, and how the promise of
  \<open>getFiles\<close> ends: fulfilled with the fetched files, rejected, or never settled.\<close>

datatype TypesRequest = AddBareModuleTypings string | AddLibTypings string

datatype 'a Settled = Fulfilled 'a | Rejected | NeverSettled

text \<open>
  What the worker imports and does not define: the \<open>typescript\<close> library (the language
  service over a host, the program, the emitter, the diagnostics helpers), \<open>URL\<close>,
  \<open>self.origin\<close>, and the modules \<open>module-resolver.js\<close> and \<open>types-fetcher.js\<close>.
  They are parameters of the model. The language service reads the files through the
  host whenever it is called; \<open>'p\<close> is the type of a program.
  \<^item> \<open>newURL rel base\<close> is \<open>new URL(rel, base).href\<close>;
  \<^item> \<open>resolve importMap specifier origin\<close> is \<open>new ModuleResolver(importMap).resolve(specifier, origin)\<close>;
  \<^item> \<open>getFiles importMap requests\<close> is how \<open>getFiles()\<close> settles on a fetcher built for
    \<open>importMap\<close> that has received \<open>requests\<close>;
  \<^item> \<open>emit program sourceFile transformer\<close> is the list of \<open>writeFile(fileName, data)\<close>
    calls that \<open>program.emit\<close> makes, in order.
\<close>

record 'p Env =
  origin :: string
  newURL :: "string \<Rightarrow> string \<Rightarrow> string"
  resolve :: "ModuleImportMap \<Rightarrow> string \<Rightarrow> string \<Rightarrow> Resolution"
  getFiles :: "ModuleImportMap \<Rightarrow> TypesRequest list \<Rightarrow> ((string \<times> string) list) Settled"
  getProgram :: "LanguageServiceHost \<Rightarrow> 'p option"
  getSourceFile :: "'p \<Rightarrow> string \<Rightarrow> node option"
  emit :: "'p \<Rightarrow> node option \<Rightarrow> (node \<Rightarrow> node) \<Rightarrow> (string \<times> string) list"
  getSyntacticDiagnostics :: "LanguageServiceHost \<Rightarrow> string \<Rightarrow> TsDiagnostic list"
  getSemanticDiagnostics :: "LanguageServiceHost \<Rightarrow> string \<Rightarrow> TsDiagnostic list"
  flattenDiagnosticMessageText :: "MessageText \<Rightarrow> string \<Rightarrow> string"
  getLineAndCharacterOfPosition :: "node \<Rightarrow> nat \<Rightarrow> Position"

record CompileResult =
  result_files :: "(string, string) js_map"
  result_diagnostics :: "(string, LspDiagnostic list) js_map"

datatype WorkerError = ProgramUndefined

text \<open>What can be observed of one call, in the order it happens: the promise of
  \<open>compileProject\<close> settles, a fetched declaration file is put into the file map, the
  slow diagnostics callback is called.\<close>

datatype Event =
    Returned CompileResult
  | Threw WorkerError
  | TypeFileSet string string
  | SlowDiagnosticsCallback "(string, LspDiagnostic list) js_map"

record Outcome =
  promise :: "WorkerError + CompileResult"
  loadedFiles :: LoadedFiles
  requests :: "TypesRequest list"
  trace :: "Event list"

section \<open>The compiler worker: operations\<close>

definition isTsOrJsFile :: "string \<Rightarrow> bool" where
  "isTsOrJsFile file = (endsWith file ''.ts'' \<or> endsWith file ''.js'')"

fun makeBareSpecifierTransformVisitor :: "(string \<Rightarrow> Resolution) \<Rightarrow> node \<Rightarrow> node" where
  "makeBareSpecifierTransformVisitor moduleResolver (ImportDeclaration others specifier) =
     (let r = moduleResolver specifier in
      if res_type r = ''bare'' then ImportDeclaration others (res_url r)
      else ImportDeclaration (map (makeBareSpecifierTransformVisitor moduleResolver) others) specifier)"
| "makeBareSpecifierTransformVisitor moduleResolver (Node k cs) =
     Node k (map (makeBareSpecifierTransformVisitor moduleResolver) cs)"

definition diagnosticCategoryMapping :: "DiagnosticCategory \<Rightarrow> nat" where
  "diagnosticCategoryMapping c =
     (case c of Error \<Rightarrow> 1 | Warning \<Rightarrow> 2 | Message \<Rightarrow> 3 | Suggestion \<Rightarrow> 4)"

definition makeLspDiagnostic :: "'p Env \<Rightarrow> TsDiagnostic \<Rightarrow> LspDiagnostic" where
  "makeLspDiagnostic env tsDiagnostic =
     \<lparr> lsp_code = ts_code tsDiagnostic,
       lsp_source = (case ts_source tsDiagnostic of Some s \<Rightarrow> s | None \<Rightarrow> ''typescript''),
       lsp_message = flattenDiagnosticMessageText env (ts_messageText tsDiagnostic) [CHR 0x0A],
       lsp_severity = diagnosticCategoryMapping (ts_category tsDiagnostic),
       lsp_range =
         \<lparr> range_start =
             (case ts_file tsDiagnostic of
                None \<Rightarrow> \<lparr> line = 0, character = 0 \<rparr>
              | Some file \<Rightarrow>
                  (case ts_start tsDiagnostic of
                     None \<Rightarrow> \<lparr> line = 0, character = 0 \<rparr>
                   | Some start \<Rightarrow> getLineAndCharacterOfPosition env file start)),
           range_end =
             (case ts_file tsDiagnostic of
                None \<Rightarrow> \<lparr> line = 0, character = 0 \<rparr>
              | Some file \<Rightarrow>
                  (case ts_start tsDiagnostic of
                     None \<Rightarrow> \<lparr> line = 0, character = 0 \<rparr>
                   | Some start \<Rightarrow>
                       (case ts_length tsDiagnostic of
                          None \<Rightarrow> \<lparr> line = 0, character = 0 \<rparr>
                        | Some len \<Rightarrow>
                            getLineAndCharacterOfPosition env file (start + len)))) \<rparr> \<rparr>"

subsection \<open>\<open>WorkerLanguageServiceHost\<close>\<close>

definition fileExists :: "LoadedFiles \<Rightarrow> string \<Rightarrow> bool" where
  "fileExists fs fileName =
     (case map_of fs fileName of
        None \<Rightarrow> False
      | Some file \<Rightarrow> (case file of Resolved u c \<Rightarrow> True | Pending \<Rightarrow> False | Redirected r \<Rightarrow> False))"

definition readFile :: "LoadedFiles \<Rightarrow> string \<Rightarrow> string option" where
  "readFile fs fileName =
     (case map_of fs fileName of
        None \<Rightarrow> None
      | Some file \<Rightarrow> (case file of Resolved u c \<Rightarrow> Some c | Pending \<Rightarrow> None | Redirected r \<Rightarrow> None))"

definition getScriptSnapshot :: "LoadedFiles \<Rightarrow> string \<Rightarrow> ScriptSnapshot option" where
  "getScriptSnapshot fs fileName =
     (if \<not> fileExists fs fileName then None
      else Some (FromString (readFile fs fileName)))"

definition WorkerLanguageServiceHost ::
    "LoadedFiles \<Rightarrow> string \<Rightarrow> CompilerOptions \<Rightarrow> LanguageServiceHost" where
  "WorkerLanguageServiceHost fs packageRoot opts =
     \<lparr> getCompilationSettings = opts,
       getScriptFileNames = filter isTsOrJsFile (map fst fs),
       getScriptVersion = (\<lambda>_. ''-1''),
       host_fileExists = fileExists fs,
       host_readFile = readFile fs,
       host_getScriptSnapshot = getScriptSnapshot fs,
       getCurrentDirectory = packageRoot,
       getDefaultLibFileName = ''__lib.d.ts'' \<rparr>"

subsection \<open>\<open>compileProject\<close>\<close>

text \<open>Lines 81 to 87: the input files, each with its URL.\<close>

definition inputFiles :: "'p Env \<Rightarrow> SampleFile list \<Rightarrow> (SampleFile \<times> string) list" where
  "inputFiles env fs =
     map (\<lambda>file. (file, newURL env (name file) (origin env)))
       (filter (\<lambda>file. isTsOrJsFile (name file)) fs)"

text \<open>Lines 88 to 94: every input file is put into the file map as resolved, and its
  content is given to the types fetcher.\<close>

fun loadInputs ::
    "(SampleFile \<times> string) list \<Rightarrow> LoadedFiles \<times> TypesRequest list
       \<Rightarrow> LoadedFiles \<times> TypesRequest list" where
  "loadInputs [] st = st"
| "loadInputs ((file, url) # rest) (loaded, reqs) =
     loadInputs rest
       (AList.update url (Resolved None (content file)) loaded,
        reqs @ [AddBareModuleTypings (content file)])"

text \<open>Lines 126 to 141: the fast pass over the input files.\<close>

fun fastPass ::
    "'p Env \<Rightarrow> LanguageServiceHost \<Rightarrow> 'p \<Rightarrow> (node \<Rightarrow> node) \<Rightarrow> (SampleFile \<times> string) list
       \<Rightarrow> (string, string) js_map \<times> (string, LspDiagnostic list) js_map
       \<Rightarrow> (string, string) js_map \<times> (string, LspDiagnostic list) js_map" where
  "fastPass env host program transformer [] st = st"
| "fastPass env host program transformer ((file, url) # rest) (emittedFiles, fastDiagnostics) =
     (let fastDiagnostics' =
            AList.update (name file)
              (map (makeLspDiagnostic env) (getSyntacticDiagnostics env host url)) fastDiagnostics;
          sourceFile = getSourceFile env program url;
          emittedFiles' =
            fold (\<lambda>(fileName, data). AList.update fileName data)
              (emit env program sourceFile transformer) emittedFiles
      in fastPass env host program transformer rest (emittedFiles', fastDiagnostics'))"

text \<open>Lines 147 to 156: the fetched declaration files are put into the file map, each
  under the URL of its specifier below \<open>node_modules/\<close>.\<close>

definition typeFileUrl :: "'p Env \<Rightarrow> string \<Rightarrow> string" where
  "typeFileUrl env specifier = newURL env (''node_modules/'' @ specifier) (origin env)"

fun addTypeFiles :: "'p Env \<Rightarrow> (string \<times> string) list \<Rightarrow> LoadedFiles \<Rightarrow> LoadedFiles" where
  "addTypeFiles env [] loaded = loaded"
| "addTypeFiles env ((specifier, c) # rest) loaded =
     addTypeFiles env rest
       (AList.update (typeFileUrl env specifier) (Resolved None c) loaded)"

text \<open>Lines 157 to 162: the semantic diagnostics of every input file.\<close>

fun slowPass ::
    "'p Env \<Rightarrow> LanguageServiceHost \<Rightarrow> (SampleFile \<times> string) list
       \<Rightarrow> (string, LspDiagnostic list) js_map \<Rightarrow> (string, LspDiagnostic list) js_map" where
  "slowPass env host [] slowDiagnostics = slowDiagnostics"
| "slowPass env host ((file, url) # rest) slowDiagnostics =
     slowPass env host rest
       (AList.update (name file)
          (map (makeLspDiagnostic env) (getSemanticDiagnostics env host url)) slowDiagnostics)"

text \<open>The events of the function started at line 145, after its \<open>await\<close>: nothing
  unless the promise of \<open>getFiles\<close> is fulfilled.\<close>

definition afterTypes ::
    "'p Env \<Rightarrow> (SampleFile \<times> string) list \<Rightarrow> LoadedFiles
       \<Rightarrow> ((string \<times> string) list) Settled \<Rightarrow> LoadedFiles \<times> Event list" where
  "afterTypes env inputs loaded settled =
     (case settled of
        Fulfilled fetched \<Rightarrow>
          (let loaded' = addTypeFiles env fetched loaded;
               host = WorkerLanguageServiceHost loaded' (origin env) compilerOptions
           in (loaded',
               map (\<lambda>(specifier, c). TypeFileSet (typeFileUrl env specifier) c) fetched
                 @ [SlowDiagnosticsCallback (slowPass env host inputs [])]))
      | Rejected \<Rightarrow> (loaded, [])
      | NeverSettled \<Rightarrow> (loaded, []))"

text \<open>
  One call of \<open>compileProject\<close>. The body runs to its \<open>return\<close> (or its \<open>throw\<close>)
  without a pause; the function started at line 145 runs to its \<open>await\<close> inside that and
  goes on only in a later turn, once the promise of \<open>getFiles\<close> is fulfilled. The file
  map is shared with the host, so the language service sees the files that are in the
  map at the time it is called.
\<close>

definition compileProject :: "'p Env \<Rightarrow> SampleFile list \<Rightarrow> ModuleImportMap \<Rightarrow> Outcome" where
  "compileProject env fs importMap =
     (let inputs = inputFiles env fs;
          (loaded, reqs0) = loadInputs inputs ([], []);
          reqs = reqs0 @ map AddLibTypings (lib compilerOptions);
          host = WorkerLanguageServiceHost loaded (origin env) compilerOptions
      in case getProgram env host of
           None \<Rightarrow>
             \<lparr> promise = Inl ProgramUndefined, loadedFiles = loaded, requests = reqs,
               trace = [Threw ProgramUndefined] \<rparr>
         | Some program \<Rightarrow>
             (let transformer =
                    makeBareSpecifierTransformVisitor (\<lambda>s. resolve env importMap s (origin env));
                  (emittedFiles, fastDiagnostics) =
                    fastPass env host program transformer inputs ([], []);
                  result = \<lparr> result_files = emittedFiles, result_diagnostics = fastDiagnostics \<rparr>;
                  (loaded', later) = afterTypes env inputs loaded (getFiles env importMap reqs)
              in \<lparr> promise = Inr result, loadedFiles = loaded', requests = reqs,
                   trace = Returned result # later \<rparr>))"

section \<open>The tab bar\<close>

text \<open>Tabs are objects that the bar and the page share: a tab is a reference into a
  heap of tab states. \<open>idx\<close> is only ever assigned a position in the bar's list, or its
  initial \<open>0\<close>.\<close>

record VanillaTab =
  active :: bool
  controls :: "string option"
  idx :: nat

type_synonym tab_ref = nat

type_synonym heap = "tab_ref \<Rightarrow> VanillaTab"

text \<open>The bar's private fields \<open>_tabs\<close> and \<open>_active\<close>.\<close>

record VanillaTabBar =
  p_tabs :: "tab_ref list"
  p_active :: "tab_ref option"

datatype TabEvent = Tabchange "tab_ref option" "tab_ref option"

datatype JsError = TypeError

text \<open>The setter of \<open>active\<close>.\<close>

definition set_active :: "VanillaTabBar \<Rightarrow> heap \<Rightarrow> tab_ref option \<Rightarrow> VanillaTabBar \<times> heap" where
  "set_active bar h tab =
     (if p_active bar = tab then (bar, h)
      else
        (let h1 = (case p_active bar of
                     Some a \<Rightarrow> h(a := (h a)\<lparr>active := False\<rparr>)
                   | None \<Rightarrow> h);
             h2 = (case tab of
                     Some t \<Rightarrow> h1(t := (h1 t)\<lparr>active := True\<rparr>)
                   | None \<Rightarrow> h1)
         in (bar\<lparr>p_active := tab\<rparr>, h2)))"

text \<open>The loop of \<open>_onSlotchange\<close>, from position \<open>i\<close> on.\<close>

fun slotLoop :: "nat \<Rightarrow> tab_ref list \<Rightarrow> tab_ref option \<times> heap \<Rightarrow> tab_ref option \<times> heap" where
  "slotLoop i [] st = st"
| "slotLoop i (tab # rest) (act, h) =
     (let h1 = h(tab := (h tab)\<lparr>idx := i\<rparr>) in
      if act \<noteq> None then slotLoop (Suc i) rest (act, h1(tab := (h1 tab)\<lparr>active := False\<rparr>))
      else if active (h1 tab) then slotLoop (Suc i) rest (Some tab, h1)
      else slotLoop (Suc i) rest (act, h1))"

definition onSlotchange ::
    "VanillaTabBar \<Rightarrow> heap \<Rightarrow> tab_ref list \<Rightarrow> VanillaTabBar \<times> heap \<times> TabEvent list" where
  "onSlotchange bar h assignedElements =
     (let prevActive = p_active bar;
          (act, h') = slotLoop 0 assignedElements (None, h)
      in (\<lparr> p_tabs = assignedElements, p_active = act \<rparr>, h',
          (if act = None \<and> prevActive \<noteq> None then [Tabchange None prevActive] else [])))"

text \<open>\<open>_onKeydown\<close>: the new heap and the tabs that were focused, or the
  \<open>TypeError\<close> of assigning to a property of \<open>undefined\<close> when \<open>_tabs[newIdx]\<close> is
  out of range.\<close>

definition oldIdx :: "VanillaTabBar \<Rightarrow> heap \<Rightarrow> int" where
  "oldIdx bar h = (case p_active bar of Some a \<Rightarrow> int (idx (h a)) | None \<Rightarrow> 0)"

definition onKeydown :: "VanillaTabBar \<Rightarrow> heap \<Rightarrow> string \<Rightarrow> JsError + heap \<times> tab_ref list" where
  "onKeydown bar h key =
     (let old = oldIdx bar h;
          newIdx =
            (if key = ''ArrowLeft'' then (if old > 0 then old - 1 else old)
             else if key = ''ArrowRight''
               then (if old < int (length (p_tabs bar)) - 1 then old + 1 else old)
             else old)
      in if newIdx \<noteq> old
         then (if 0 \<le> newIdx \<and> newIdx < int (length (p_tabs bar))
               then (let tab = p_tabs bar ! nat newIdx
                     in Inr (h(tab := (h tab)\<lparr>active := True\<rparr>), [tab]))
               else Inl TypeError)
         else Inr (h, []))"

section \<open>The file editor\<close>

text \<open>The project as the editor uses it: its files (an array of mutable file objects,
  or undefined), its diagnostics (a map by file name, or undefined) and the calls of
  \<open>saveDebounced\<close> it has received.\<close>

record PlaygroundProject =
  project_files :: "SampleFile list option"
  project_diagnostics :: "(string, LspDiagnostic list) js_map option"
  saveDebouncedCalls :: nat

record PlaygroundFileEditor =
  filename :: "string option"
  lineNumbers :: bool
  pragmas :: string
  readonly :: bool
  p_project :: "PlaygroundProject option"
  editor_value :: string

text \<open>The properties \<open>render\<close> binds on the code editor.\<close>

record CodeEditorProps =
  prop_value :: string
  prop_type :: "string option"
  prop_lineNumbers :: bool
  prop_readonly :: bool
  prop_pragmas :: string
  prop_diagnostics :: "LspDiagnostic list option"

text \<open>The getter \<open>_files\<close>.\<close>

definition files_of :: "PlaygroundFileEditor \<Rightarrow> SampleFile list" where
  "files_of ed =
     (case p_project ed of
        None \<Rightarrow> []
      | Some project \<Rightarrow> (case project_files project of None \<Rightarrow> [] | Some fs \<Rightarrow> fs))"

text \<open>\<open>Array.prototype.find\<close>, as the position of the element found: the file
  object found is the one at that position of the project's array.\<close>

fun findIndex :: "('a \<Rightarrow> bool) \<Rightarrow> 'a list \<Rightarrow> nat option" where
  "findIndex P [] = None"
| "findIndex P (x # xs) =
     (if P x then Some 0 else map_option Suc (findIndex P xs))"

text \<open>The getter \<open>_currentFile\<close>; an undefined or empty \<open>filename\<close> is falsy.\<close>

definition currentFileIndex :: "PlaygroundFileEditor \<Rightarrow> nat option" where
  "currentFileIndex ed =
     (case filename ed of
        None \<Rightarrow> None
      | Some f \<Rightarrow>
          (if f \<noteq> [] then findIndex (\<lambda>file. name file = f) (files_of ed) else None))"

definition currentFile :: "PlaygroundFileEditor \<Rightarrow> SampleFile option" where
  "currentFile ed = map_option (\<lambda>i. files_of ed ! i) (currentFileIndex ed)"

subsection \<open>\<open>mimeTypeToTypeEnum\<close>\<close>

definition mimeTypeToTypeEnum :: "string option \<Rightarrow> string option" where
  "mimeTypeToTypeEnum mimeType =
     (case mimeType of
        None \<Rightarrow> None
      | Some m \<Rightarrow>
          (let encodingSepIndex = indexOf m (CHR '';'');
               m' = (if encodingSepIndex \<noteq> -1 then substring0 m encodingSepIndex else m)
           in if m' = ''video/mp2t'' then Some ''ts''
              else if m' = ''text/javascript'' then Some ''js''
              else if m' = ''application/javascript'' then Some ''js''
              else if m' = ''application/json'' then Some ''json''
              else if m' = ''text/html'' then Some ''html''
              else if m' = ''text/css'' then Some ''css''
              else None))"

text \<open>The claim's reading: everything from the first \<open>;\<close> on is a parameter suffix.\<close>

definition stripParameters :: "string \<Rightarrow> string" where
  "stripParameters m = takeWhile (\<lambda>c. c \<noteq> CHR '';'') m"

text \<open>\<open>render\<close>: an array is truthy, so the code editor is always rendered.\<close>

definition render :: "PlaygroundFileEditor \<Rightarrow> CodeEditorProps" where
  "render ed =
     \<lparr> prop_value = (case currentFile ed of Some file \<Rightarrow> content file | None \<Rightarrow> []),
       prop_type = (case currentFile ed of
                      Some file \<Rightarrow> mimeTypeToTypeEnum (contentType file)
                    | None \<Rightarrow> None),
       prop_lineNumbers = lineNumbers ed,
       prop_readonly = (readonly ed \<or> currentFile ed = None),
       prop_pragmas = pragmas ed,
       prop_diagnostics =
         (case p_project ed of
            None \<Rightarrow> None
          | Some project \<Rightarrow>
              (case project_diagnostics project of
                 None \<Rightarrow> None
               | Some ds \<Rightarrow>
                   map_of ds (case currentFile ed of Some file \<Rightarrow> name file | None \<Rightarrow> []))) \<rparr>"

text \<open>\<open>_onEdit\<close>: the editor's value goes into the current file object, and the
  project is asked to save. The file objects live in the project's array, so a current
  file exists only when there is a project; the branch without one is never taken.\<close>

definition onEdit :: "PlaygroundFileEditor \<Rightarrow> PlaygroundFileEditor" where
  "onEdit ed =
     (case currentFileIndex ed of
        None \<Rightarrow> ed
      | Some i \<Rightarrow>
          (case p_project ed of
             None \<Rightarrow> ed
           | Some project \<Rightarrow>
               ed\<lparr>p_project :=
                    Some (project
                      \<lparr>project_files :=
                         Some ((files_of ed)[i := (files_of ed ! i)\<lparr>content := editor_value ed\<rparr>]),
                       saveDebouncedCalls := Suc (saveDebouncedCalls project)\<rparr>)\<rparr>))"

section \<open>Notions the properties are stated with\<close>

text \<open>The specifier an import declaration is to have after the transform: the resolver's
  URL when the resolver calls the specifier bare, the specifier itself otherwise.\<close>

definition rewriteSpecifier :: "(string \<Rightarrow> Resolution) \<Rightarrow> string \<Rightarrow> string" where
  "rewriteSpecifier moduleResolver specifier =
     (if res_type (moduleResolver specifier) = ''bare'' then res_url (moduleResolver specifier)
      else specifier)"

text \<open>The specifiers of the import declarations of a tree, in document order. An import
  declaration's own children (modifiers, import clause) hold no import declaration in a
  tree the parser builds; \<open>noNestedImports\<close> says so of a tree.\<close>

fun importSpecifiers :: "node \<Rightarrow> string list" where
  "importSpecifiers (ImportDeclaration others specifier) = [specifier]"
| "importSpecifiers (Node k cs) = concat (map importSpecifiers cs)"

fun importFree :: "node \<Rightarrow> bool" where
  "importFree (ImportDeclaration others specifier) = False"
| "importFree (Node k cs) = list_all importFree cs"

fun noNestedImports :: "node \<Rightarrow> bool" where
  "noNestedImports (ImportDeclaration others specifier) = list_all importFree others"
| "noNestedImports (Node k cs) = list_all noNestedImports cs"

text \<open>The tree with every import declaration's specifier replaced.\<close>

fun mapSpecifiers :: "(string \<Rightarrow> string) \<Rightarrow> node \<Rightarrow> node" where
  "mapSpecifiers f (ImportDeclaration others specifier) =
     ImportDeclaration (map (mapSpecifiers f) others) (f specifier)"
| "mapSpecifiers f (Node k cs) = Node k (map (mapSpecifiers f) cs)"

text \<open>The tabs of the bar whose \<open>active\<close> flag is set.\<close>

definition activeTabs :: "VanillaTabBar \<Rightarrow> heap \<Rightarrow> tab_ref list" where
  "activeTabs bar h = filter (\<lambda>t. active (h t)) (p_tabs bar)"

text \<open>\<open>tab.active = true\<close>.\<close>

definition activate :: "heap \<Rightarrow> tab_ref \<Rightarrow> heap" where
  "activate h tab = h(tab := (h tab)\<lparr>active := True\<rparr>)"

text \<open>The URL of an input file, the file map with the input files only (as it is
  during the fast pass), the host over it, the transformer given to \<open>emit\<close>, and the
  requests the types fetcher has received when \<open>getFiles\<close> is called.\<close>

definition inputUrl :: "'p Env \<Rightarrow> SampleFile \<Rightarrow> string" where
  "inputUrl env file = newURL env (name file) (origin env)"

definition inputFileMap :: "'p Env \<Rightarrow> SampleFile list \<Rightarrow> LoadedFiles" where
  "inputFileMap env fs = fst (loadInputs (inputFiles env fs) ([], []))"

definition fastHost :: "'p Env \<Rightarrow> SampleFile list \<Rightarrow> LanguageServiceHost" where
  "fastHost env fs = WorkerLanguageServiceHost (inputFileMap env fs) (origin env) compilerOptions"

definition transformerOf :: "'p Env \<Rightarrow> ModuleImportMap \<Rightarrow> node \<Rightarrow> node" where
  "transformerOf env importMap =
     makeBareSpecifierTransformVisitor (\<lambda>s. resolve env importMap s (origin env))"

definition typeRequests :: "'p Env \<Rightarrow> SampleFile list \<Rightarrow> TypesRequest list" where
  "typeRequests env fs =
     snd (loadInputs (inputFiles env fs) ([], [])) @ map AddLibTypings (lib compilerOptions)"


section \<open>Sample inputs\<close>

definition sampleResolver :: "string \<Rightarrow> Resolution" where
  "sampleResolver specifier =
     (if specifier = ''lit'' then \<lparr> res_type = ''bare'', res_url = ''https://unpkg.com/lit?module'' \<rparr>
      else \<lparr> res_type = ''relative'', res_url = ''http://localhost/'' @ specifier \<rparr>)"

definition sampleTree :: node where
  "sampleTree =
     Node ''SourceFile''
       [ImportDeclaration [Node ''ImportClause'' []] ''lit'',
        ImportDeclaration [] ''./util.js'',
        Node ''ExpressionStatement'' []]"

definition sampleHeap :: heap where
  "sampleHeap = (\<lambda>t. \<lparr> active = (t = 6 \<or> t = 7), controls = None, idx = 0 \<rparr>)"

definition soloHeap :: heap where
  "soloHeap = (\<lambda>t. \<lparr> active = (t = 6), controls = None, idx = t - 5 \<rparr>)"

definition sampleBar :: VanillaTabBar where
  "sampleBar = \<lparr> p_tabs = [5, 6, 7], p_active = Some 6 \<rparr>"

text \<open>A tab that is not one of the bar's: tab 9 carries the \<open>idx\<close> 5 it was given
  elsewhere. After a slot change of the bar with the tabs 5, 6 and 7 and the assignment
  of tab 9 to the bar's \<open>active\<close> property, the bar and the heap are \<open>staleBar\<close> and
  \<open>staleHeap\<close>.\<close>

definition foreignHeap :: heap where
  "foreignHeap = sampleHeap(9 := \<lparr> active = False, controls = None, idx = 5 \<rparr>)"

definition staleBar :: VanillaTabBar where
  "staleBar = \<lparr> p_tabs = [5, 6, 7], p_active = Some 9 \<rparr>"

definition staleHeap :: heap where
  "staleHeap =
     (\<lambda>t. \<lparr> active = (t = 9), controls = None,
            idx = (if t = 9 then 5 else if t = 7 then 2 else if t = 6 then 1 else 0) \<rparr>)"

definition sampleLoaded :: LoadedFiles where
  "sampleLoaded =
     [(''http://localhost/a.ts'', Resolved None ''let a''),
      (''http://localhost/b.ts'', Pending),
      (''http://localhost/c.ts'', Redirected ''http://localhost/a.ts'')]"

definition sampleDiagnostic :: TsDiagnostic where
  "sampleDiagnostic =
     \<lparr> ts_code = 1005, ts_source = None, ts_messageText = PlainMessage ''; expected'',
       ts_category = Error, ts_file = Some sampleTree, ts_start = Some 3, ts_length = Some 2 \<rparr>"

definition sampleEnv :: "unit Env" where
  "sampleEnv =
     \<lparr> origin = ''http://localhost'',
       newURL = (\<lambda>rel base. base @ ''/'' @ rel),
       resolve = (\<lambda>importMap specifier base. sampleResolver specifier),
       getFiles = (\<lambda>importMap reqs. Fulfilled [(''lit/index.d.ts'', ''export {}'')]),
       getProgram = (\<lambda>host. Some ()),
       getSourceFile =
         (\<lambda>program url. if url = ''http://localhost/a.ts'' then Some sampleTree else None),
       emit =
         (\<lambda>program sourceFile transformer.
            case sourceFile of
              None \<Rightarrow> []
            | Some n \<Rightarrow> [(''http://localhost/a.js'', concat (importSpecifiers (transformer n)))]),
       getSyntacticDiagnostics =
         (\<lambda>host url. if host_fileExists host url then [sampleDiagnostic] else []),
       getSemanticDiagnostics =
         (\<lambda>host url.
            if host_fileExists host ''http://localhost/node_modules/lit/index.d.ts'' then []
            else [sampleDiagnostic\<lparr>ts_code := 2307, ts_length := None\<rparr>]),
       flattenDiagnosticMessageText =
         (\<lambda>text newLine.
            case text of PlainMessage s \<Rightarrow> s | ChainedMessage (MessageChain s next) \<Rightarrow> s),
       getLineAndCharacterOfPosition = (\<lambda>file pos. \<lparr> line = 0, character = pos \<rparr>) \<rparr>"

definition sampleProject :: PlaygroundProject where
  "sampleProject =
     \<lparr> project_files =
         Some [\<lparr> name = ''index.html'', content = ''<p>'', contentType = Some ''text/html'' \<rparr>,
               \<lparr> name = ''a.ts'', content = ''let a'', contentType = Some ''video/mp2t'' \<rparr>],
       project_diagnostics = Some [(''a.ts'', [makeLspDiagnostic sampleEnv sampleDiagnostic])],
       saveDebouncedCalls = 0 \<rparr>"

definition sampleEditor :: PlaygroundFileEditor where
  "sampleEditor =
     \<lparr> filename = Some ''a.ts'', lineNumbers = False, pragmas = ''on'', readonly = False,
       p_project = Some sampleProject, editor_value = ''let b'' \<rparr>"

text \<open>An editor whose \<open>filename\<close> is the empty string, on a project with a file of
  that name.\<close>

definition emptyNameFile :: SampleFile where
  "emptyNameFile = \<lparr> name = [], content = ''x'', contentType = None \<rparr>"

definition emptyNameEditor :: PlaygroundFileEditor where
  "emptyNameEditor =
     \<lparr> filename = Some [], lineNumbers = False, pragmas = ''on'', readonly = False,
       p_project =
         Some \<lparr> project_files = Some [emptyNameFile], project_diagnostics = None,
                saveDebouncedCalls = 0 \<rparr>,
       editor_value = [] \<rparr>"

definition sampleFiles :: "SampleFile list" where
  "sampleFiles =
     [\<lparr> name = ''index.html'', content = ''<p>'', contentType = Some ''text/html'' \<rparr>,
      \<lparr> name = ''a.ts'', content = ''let a'', contentType = Some ''video/mp2t'' \<rparr>]"

definition sampleResult :: CompileResult where
  "sampleResult =
     \<lparr> result_files = [(''http://localhost/a.js'', ''https://unpkg.com/lit?module./util.js'')],
       result_diagnostics = [(''a.ts'', [makeLspDiagnostic sampleEnv sampleDiagnostic])] \<rparr>"

section \<open>Properties of \<open>mimeTypeToTypeEnum\<close>\<close>

lemma indexOf_ge: "- 1 \<le> indexOf s c"
  by (induction s) (auto simp: Let_def)

lemma indexOf_none: "indexOf s c = - 1 \<longleftrightarrow> c \<notin> set s"
proof (induction s)
  case Nil
  show ?case by simp
next
  case (Cons x xs)
  have "- 1 \<le> indexOf xs c" by (rule indexOf_ge)
  with Cons show ?case by (auto simp: Let_def)
qed

lemma indexOf_takeWhile: "c \<in> set s \<Longrightarrow> indexOf s c = int (length (takeWhile (\<lambda>x. x \<noteq> c) s))"
  by (induction s) (auto simp: Let_def indexOf_none)

lemma strip_by_indexOf:
  "(if indexOf m (CHR '';'') \<noteq> - 1 then substring0 m (indexOf m (CHR '';'')) else m)
     = stripParameters m"
proof (cases "CHR '';'' \<in> set m")
  case True
  then have "indexOf m (CHR '';'') = int (length (takeWhile (\<lambda>x. x \<noteq> CHR '';'') m))"
    by (rule indexOf_takeWhile)
  moreover have "take (length (takeWhile (\<lambda>x. x \<noteq> CHR '';'') m)) m
      = takeWhile (\<lambda>x. x \<noteq> CHR '';'') m"
    by (induction m) auto
  ultimately show ?thesis
    using True by (simp add: substring0_def stripParameters_def indexOf_none)
next
  case False
  then have "takeWhile (\<lambda>x. x \<noteq> CHR '';'') m = m"
    by (induction m) auto
  with False show ?thesis
    by (simp only: stripParameters_def indexOf_none) simp
qed

text \<open>
  C10. \<open>mimeTypeToTypeEnum\<close> returns undefined for an undefined input; otherwise it
  first strips the parameter suffix that starts at the first \<open>;\<close>, and then returns
  \<open>ts\<close> for \<open>video/mp2t\<close>, \<open>js\<close> for \<open>text/javascript\<close> and
  \<open>application/javascript\<close>, \<open>json\<close> for \<open>application/json\<close>, \<open>html\<close> for
  \<open>text/html\<close>, \<open>css\<close> for \<open>text/css\<close>, and undefined for any other mime type.
\<close>

theorem mimeTypeToTypeEnum_table:
  "mimeTypeToTypeEnum None = None \<and>
   mimeTypeToTypeEnum (Some m) =
     (let b = stripParameters m in
        if b = ''video/mp2t'' then Some ''ts''
        else if b = ''text/javascript'' \<or> b = ''application/javascript'' then Some ''js''
        else if b = ''application/json'' then Some ''json''
        else if b = ''text/html'' then Some ''html''
        else if b = ''text/css'' then Some ''css''
        else None)"
  unfolding mimeTypeToTypeEnum_def Let_def option.case strip_by_indexOf
  by simp

theorem mimeTypeToTypeEnum_table_witness:
  "mimeTypeToTypeEnum (Some ''text/javascript; charset=utf-8'') = Some ''js'' \<and>
   mimeTypeToTypeEnum (Some ''video/mp2t'') = Some ''ts'' \<and>
   mimeTypeToTypeEnum (Some ''text/plain'') = None"
  using mimeTypeToTypeEnum_table [of "''text/javascript; charset=utf-8''"]
        mimeTypeToTypeEnum_table [of "''video/mp2t''"]
        mimeTypeToTypeEnum_table [of "''text/plain''"]
  by (simp add: stripParameters_def)

section \<open>Properties of the specifier transform\<close>

lemma importFree_visitor: "importFree n \<Longrightarrow> makeBareSpecifierTransformVisitor r n = n"
  by (induction n) (auto simp: list_all_iff map_idI)

lemma importFree_mapSpecifiers: "importFree n \<Longrightarrow> mapSpecifiers f n = n"
  by (induction n) (auto simp: list_all_iff map_idI)

lemma visitor_outermost:
  "importSpecifiers (makeBareSpecifierTransformVisitor r n)
     = map (rewriteSpecifier r) (importSpecifiers n)"
proof (induction n)
  case (ImportDeclaration others s)
  show ?case by (simp add: Let_def rewriteSpecifier_def)
next
  case (Node k cs)
  then have "map (\<lambda>c. importSpecifiers (makeBareSpecifierTransformVisitor r c)) cs
      = map (\<lambda>c. map (rewriteSpecifier r) (importSpecifiers c)) cs"
    by simp
  then show ?case
    by (simp only: makeBareSpecifierTransformVisitor.simps importSpecifiers.simps
        map_concat map_map comp_def)
qed

lemma visitor_tree:
  "noNestedImports n \<Longrightarrow>
     makeBareSpecifierTransformVisitor r n = mapSpecifiers (rewriteSpecifier r) n"
proof (induction n)
  case (ImportDeclaration others s)
  then have "\<forall>c\<in>set others. importFree c"
    by (simp add: list_all_iff)
  then have "map (makeBareSpecifierTransformVisitor r) others = others"
    and "map (mapSpecifiers (rewriteSpecifier r)) others = others"
    by (simp_all add: importFree_visitor importFree_mapSpecifiers map_idI)
  moreover have "rewriteSpecifier r s
      = (if res_type (r s) = ''bare'' then res_url (r s) else s)"
    by (simp add: rewriteSpecifier_def)
  ultimately show ?case
    by (simp add: Let_def)
next
  case (Node k cs)
  then show ?case
    by (simp add: list_all_iff)
qed

text \<open>
  C3. During emit the visitor is applied to the tree of the file. The import
  declarations of the result are those of the input, in the same order, and each has the
  resolver's URL as its specifier if the resolver classifies its specifier as \<open>bare\<close>,
  and its own specifier unchanged otherwise. In a tree the parser builds (no import
  declaration inside another one) the result is the input tree with exactly these
  specifiers replaced and nothing else changed.
\<close>

theorem bare_specifiers_rewritten:
  "importSpecifiers (makeBareSpecifierTransformVisitor r n)
     = map (rewriteSpecifier r) (importSpecifiers n) \<and>
   (noNestedImports n \<longrightarrow>
      makeBareSpecifierTransformVisitor r n = mapSpecifiers (rewriteSpecifier r) n) \<and>
   (res_type (r s) = ''bare'' \<longrightarrow> rewriteSpecifier r s = res_url (r s)) \<and>
   (res_type (r s) \<noteq> ''bare'' \<longrightarrow> rewriteSpecifier r s = s)"
  using visitor_outermost [of r n] visitor_tree [of n r]
  by (simp add: rewriteSpecifier_def)

theorem bare_specifiers_rewritten_witness:
  "noNestedImports sampleTree \<and>
   importSpecifiers sampleTree = [''lit'', ''./util.js''] \<and>
   importSpecifiers (makeBareSpecifierTransformVisitor sampleResolver sampleTree)
     = [''https://unpkg.com/lit?module'', ''./util.js''] \<and>
   makeBareSpecifierTransformVisitor sampleResolver sampleTree
     = Node ''SourceFile''
         [ImportDeclaration [Node ''ImportClause'' []] ''https://unpkg.com/lit?module'',
          ImportDeclaration [] ''./util.js'',
          Node ''ExpressionStatement'' []]"
  using bare_specifiers_rewritten [of sampleResolver sampleTree "''lit''"]
  by (simp add: sampleTree_def sampleResolver_def rewriteSpecifier_def)

section \<open>Properties of the tab bar\<close>

lemma slotLoop_act:
  "fst (slotLoop i ts (act, h))
     = (case act of Some a \<Rightarrow> Some a | None \<Rightarrow> find (\<lambda>t. active (h t)) ts)"
proof (induction ts arbitrary: i act h)
  case Nil
  show ?case by (simp split: option.splits)
next
  case (Cons t ts)
  have same: "(\<lambda>ta. active ((h(t := (h t)\<lparr>idx := i\<rparr>)) ta)) = (\<lambda>ta. active (h ta))"
    by (auto simp: fun_eq_iff)
  show ?case
  proof (cases act)
    case None
    have "active ((h(t := (h t)\<lparr>idx := i\<rparr>)) t) = active (h t)"
      by simp
    with None show ?thesis
      by (simp add: Let_def Cons.IH same del: fun_upd_apply)
  next
    case (Some a)
    then show ?thesis
      by (simp add: Let_def Cons.IH)
  qed
qed

lemma slotLoop_other:
  "t \<notin> set ts \<Longrightarrow> snd (slotLoop i ts (act, h)) t = h t"
proof (induction ts arbitrary: i act h)
  case Nil
  show ?case by simp
next
  case (Cons x ts)
  then show ?case
    by (simp add: Let_def)
qed

lemma slotLoop_idx:
  "distinct ts \<Longrightarrow> j < length ts \<Longrightarrow> idx (snd (slotLoop i ts (act, h)) (ts ! j)) = i + j"
proof (induction ts arbitrary: i act h j)
  case Nil
  then show ?case by simp
next
  case (Cons x ts)
  show ?case
  proof (cases j)
    case 0
    with Cons.prems show ?thesis
      by (simp add: Let_def slotLoop_other)
  next
    case (Suc j')
    with Cons.prems have "j' < length ts" "distinct ts" by simp_all
    with Cons.IH Suc show ?thesis
      by (simp add: Let_def)
  qed
qed

lemma slotLoop_active:
  "distinct ts \<Longrightarrow> j < length ts \<Longrightarrow>
     active (snd (slotLoop i ts (act, h)) (ts ! j))
       = (act = None \<and> active (h (ts ! j)) \<and> (\<forall>k<j. \<not> active (h (ts ! k))))"
proof (induction ts arbitrary: i act h j)
  case Nil
  then show ?case by simp
next
  case (Cons x ts)
  show ?case
  proof (cases j)
    case 0
    with Cons.prems show ?thesis
      by (auto simp add: Let_def slotLoop_other)
  next
    case (Suc j')
    with Cons.prems have j': "j' < length ts" and d: "distinct ts" and x: "x \<notin> set ts"
      by simp_all
    from j' x have ne: "ts ! j' \<noteq> x" by auto
    have ks: "\<And>k. k < j' \<Longrightarrow> ts ! k \<noteq> x" using j' x by auto
    have all: "(\<forall>k<Suc j'. \<not> active (h ((x # ts) ! k)))
        = (\<not> active (h x) \<and> (\<forall>k<j'. \<not> active (h (ts ! k))))"
      by (auto simp: less_Suc_eq_0_disj)
    show ?thesis
      using Suc ne ks
      by (auto simp add: Let_def Cons.IH [OF d j'] all)
  qed
qed

lemma distinct_subset_option:
  "distinct xs \<Longrightarrow> set xs \<subseteq> set_option opt \<Longrightarrow> length xs \<le> 1"
proof (cases opt)
  case None
  assume "set xs \<subseteq> set_option opt"
  with None show ?thesis by simp
next
  case (Some a)
  assume d: "distinct xs" and "set xs \<subseteq> set_option opt"
  with Some have "set xs \<subseteq> {a}" by simp
  then have "card (set xs) \<le> card {a}"
    by (intro card_mono) simp_all
  with d show ?thesis
    by (simp add: distinct_card)
qed

lemma set_active_same: "p_active bar = tab \<Longrightarrow> set_active bar h tab = (bar, h)"
  by (simp add: set_active_def)

lemma set_active_changes:
  assumes "p_active bar \<noteq> tab" and "set_active bar h tab = (bar', h')"
  shows "p_active bar' = tab" and "p_tabs bar' = p_tabs bar"
    and "\<And>a. p_active bar = Some a \<Longrightarrow> \<not> active (h' a)"
    and "\<And>t. tab = Some t \<Longrightarrow> active (h' t)"
    and "\<And>x. Some x \<noteq> p_active bar \<Longrightarrow> Some x \<noteq> tab \<Longrightarrow> h' x = h x"
  using assms
  by (auto simp: set_active_def Let_def split: option.splits)

lemma set_active_invariant:
  assumes inv: "set (activeTabs bar h) \<subseteq> set_option (p_active bar)"
    and res: "set_active bar h tab = (bar', h')"
  shows "set (activeTabs bar' h') \<subseteq> set_option (p_active bar')"
proof (cases "p_active bar = tab")
  case True
  with res inv show ?thesis by (simp add: set_active_def)
next
  case False
  note ch = set_active_changes [OF False res]
  show ?thesis
  proof
    fix x assume "x \<in> set (activeTabs bar' h')"
    then have x: "x \<in> set (p_tabs bar)" "active (h' x)"
      by (simp_all add: activeTabs_def ch(2))
    show "x \<in> set_option (p_active bar')"
    proof (rule ccontr)
      assume "x \<notin> set_option (p_active bar')"
      then have nt: "Some x \<noteq> tab" by (auto simp: ch(1))
      from x(2) ch(3) have np: "Some x \<noteq> p_active bar" by auto
      from ch(5) [OF np nt] x have "x \<in> set (activeTabs bar h)"
        by (simp add: activeTabs_def)
      with inv np show False by auto
    qed
  qed
qed

lemma onSlotchange_tabs:
  assumes "onSlotchange bar h ts = (bar', h', evs)"
  shows "p_tabs bar' = ts" and "p_active bar' = find (\<lambda>t. active (h t)) ts"
    and "h' = snd (slotLoop 0 ts (None, h))"
  using assms slotLoop_act [of 0 ts None h]
  by (auto simp: onSlotchange_def Let_def split: prod.splits)

lemma find_first_index:
  "j < length ts \<Longrightarrow> P (ts ! j) \<Longrightarrow> \<forall>k<j. \<not> P (ts ! k) \<Longrightarrow> find P ts = Some (ts ! j)"
proof (induction ts arbitrary: j)
  case Nil
  then show ?case by simp
next
  case (Cons x ts)
  show ?case
  proof (cases j)
    case 0
    with Cons.prems show ?thesis by simp
  next
    case (Suc j')
    with Cons.prems have "\<not> P x" by auto
    moreover from Suc Cons.prems have "find P ts = Some (ts ! j')"
      by (intro Cons.IH) auto
    ultimately show ?thesis using Suc by simp
  qed
qed

lemma onSlotchange_invariant:
  assumes d: "distinct ts" and res: "onSlotchange bar h ts = (bar', h', evs)"
  shows "set (activeTabs bar' h') \<subseteq> set_option (p_active bar')"
proof
  note r = onSlotchange_tabs [OF res]
  fix x assume "x \<in> set (activeTabs bar' h')"
  then have "x \<in> set ts" and a: "active (h' x)"
    by (simp_all add: activeTabs_def r(1))
  then obtain j where j: "j < length ts" "x = ts ! j"
    by (auto simp: in_set_conv_nth)
  from a j have "active (h (ts ! j)) \<and> (\<forall>k<j. \<not> active (h (ts ! k)))"
    using slotLoop_active [OF d j(1), of 0 None h] by (simp add: r(3))
  then have "find (\<lambda>t. active (h t)) ts = Some (ts ! j)"
    using j(1) by (intro find_first_index) auto
  then show "x \<in> set_option (p_active bar')"
    by (simp add: r(2) j(2))
qed

text \<open>
  C5. The tab bar keeps at most one tab active. Assigning the bar's \<open>active\<close> property
  does nothing when the same tab is assigned again; otherwise it clears the \<open>active\<close>
  flag of the previously active tab, sets the flag of the new tab, records the new tab
  and leaves every other tab alone. If the tabs of the bar are distinct and no tab of
  the bar other than the recorded one is active, the same holds afterwards, so at most
  one tab of the bar is active. After a slot change with distinct assigned elements,
  every tab's \<open>idx\<close> is its position, a tab is active exactly if it was active and no
  tab before it was (only the first active tab stays active), that tab is the recorded
  one, and at most one tab of the bar is active.
\<close>

theorem tab_bar_one_active:
  "(p_active bar = tab \<longrightarrow> set_active bar h tab = (bar, h)) \<and>
   (p_active bar \<noteq> tab \<longrightarrow>
      (case set_active bar h tab of (bar', h') \<Rightarrow>
         p_active bar' = tab \<and> p_tabs bar' = p_tabs bar \<and>
         (\<forall>a. p_active bar = Some a \<longrightarrow> \<not> active (h' a)) \<and>
         (\<forall>t. tab = Some t \<longrightarrow> active (h' t)) \<and>
         (\<forall>x. Some x \<noteq> p_active bar \<and> Some x \<noteq> tab \<longrightarrow> h' x = h x))) \<and>
   (distinct (p_tabs bar) \<and> set (activeTabs bar h) \<subseteq> set_option (p_active bar) \<longrightarrow>
      (case set_active bar h tab of (bar', h') \<Rightarrow>
         set (activeTabs bar' h') \<subseteq> set_option (p_active bar') \<and>
         length (activeTabs bar' h') \<le> 1)) \<and>
   (distinct ts \<longrightarrow>
      (case onSlotchange bar h ts of (bar', h', evs) \<Rightarrow>
         p_tabs bar' = ts \<and>
         (\<forall>i<length ts.
            idx (h' (ts ! i)) = i \<and>
            active (h' (ts ! i))
              = (active (h (ts ! i)) \<and> (\<forall>k<i. \<not> active (h (ts ! k))))) \<and>
         p_active bar' = find (\<lambda>t. active (h t)) ts \<and>
         set (activeTabs bar' h') \<subseteq> set_option (p_active bar') \<and>
         length (activeTabs bar' h') \<le> 1))"
proof (intro conjI impI)
  assume "p_active bar = tab"
  then show "set_active bar h tab = (bar, h)" by (rule set_active_same)
next
  assume ne: "p_active bar \<noteq> tab"
  obtain bar' h' where res: "set_active bar h tab = (bar', h')"
    by (cases "set_active bar h tab")
  note ch = set_active_changes [OF ne res]
  show "case set_active bar h tab of (bar', h') \<Rightarrow>
         p_active bar' = tab \<and> p_tabs bar' = p_tabs bar \<and>
         (\<forall>a. p_active bar = Some a \<longrightarrow> \<not> active (h' a)) \<and>
         (\<forall>t. tab = Some t \<longrightarrow> active (h' t)) \<and>
         (\<forall>x. Some x \<noteq> p_active bar \<and> Some x \<noteq> tab \<longrightarrow> h' x = h x)"
    unfolding res prod.case using ch by blast
next
  assume a: "distinct (p_tabs bar) \<and> set (activeTabs bar h) \<subseteq> set_option (p_active bar)"
  obtain bar' h' where res: "set_active bar h tab = (bar', h')"
    by (cases "set_active bar h tab")
  have tabs: "p_tabs bar' = p_tabs bar"
    using res by (auto simp: set_active_def Let_def split: if_splits)
  have inv: "set (activeTabs bar' h') \<subseteq> set_option (p_active bar')"
    using a by (intro set_active_invariant [OF _ res]) simp
  moreover have "distinct (activeTabs bar' h')"
    using a by (simp add: activeTabs_def tabs)
  ultimately have "length (activeTabs bar' h') \<le> 1"
    by (intro distinct_subset_option)
  with inv show "case set_active bar h tab of (bar', h') \<Rightarrow>
         set (activeTabs bar' h') \<subseteq> set_option (p_active bar') \<and>
         length (activeTabs bar' h') \<le> 1"
    unfolding res prod.case by simp
next
  assume d: "distinct ts"
  obtain bar' h' evs where res: "onSlotchange bar h ts = (bar', h', evs)"
    by (cases "onSlotchange bar h ts")
  note r = onSlotchange_tabs [OF res]
  have inv: "set (activeTabs bar' h') \<subseteq> set_option (p_active bar')"
    using d res by (rule onSlotchange_invariant)
  moreover have "distinct (activeTabs bar' h')"
    using d by (simp add: activeTabs_def r(1))
  ultimately have one: "length (activeTabs bar' h') \<le> 1"
    by (intro distinct_subset_option)
  have each: "\<forall>i<length ts.
            idx (h' (ts ! i)) = i \<and>
            active (h' (ts ! i))
              = (active (h (ts ! i)) \<and> (\<forall>k<i. \<not> active (h (ts ! k))))"
  proof (intro allI impI)
    fix i assume i: "i < length ts"
    show "idx (h' (ts ! i)) = i \<and>
            active (h' (ts ! i))
              = (active (h (ts ! i)) \<and> (\<forall>k<i. \<not> active (h (ts ! k))))"
      using slotLoop_idx [OF d i, of 0 None h] slotLoop_active [OF d i, of 0 None h]
      by (simp add: r(3))
  qed
  show "case onSlotchange bar h ts of (bar', h', evs) \<Rightarrow>
         p_tabs bar' = ts \<and>
         (\<forall>i<length ts.
            idx (h' (ts ! i)) = i \<and>
            active (h' (ts ! i))
              = (active (h (ts ! i)) \<and> (\<forall>k<i. \<not> active (h (ts ! k))))) \<and>
         p_active bar' = find (\<lambda>t. active (h t)) ts \<and>
         set (activeTabs bar' h') \<subseteq> set_option (p_active bar') \<and>
         length (activeTabs bar' h') \<le> 1"
    unfolding res prod.case
    by (intro conjI) (rule r(1) each r(2) inv one)+
qed

lemma sample_slotchange:
  "onSlotchange sampleBar sampleHeap [5, 6, 7]
     = (\<lparr> p_tabs = [5, 6, 7], p_active = Some 6 \<rparr>,
        sampleHeap
          (5 := \<lparr> active = False, controls = None, idx = 0 \<rparr>,
           6 := \<lparr> active = True, controls = None, idx = 1 \<rparr>,
           7 := \<lparr> active = False, controls = None, idx = 2 \<rparr>),
        [])"
  by (simp add: onSlotchange_def sampleBar_def sampleHeap_def Let_def fun_eq_iff)

lemma sample_set_active:
  "set_active sampleBar soloHeap (Some 7)
     = (\<lparr> p_tabs = [5, 6, 7], p_active = Some 7 \<rparr>,
        soloHeap
          (6 := \<lparr> active = False, controls = None, idx = 1 \<rparr>,
           7 := \<lparr> active = True, controls = None, idx = 2 \<rparr>))"
  by (simp add: set_active_def sampleBar_def soloHeap_def Let_def)

theorem tab_bar_one_active_witness:
  "distinct (p_tabs sampleBar) \<and>
   set (activeTabs sampleBar soloHeap) \<subseteq> set_option (p_active sampleBar) \<and>
   p_active sampleBar \<noteq> Some 7 \<and>
   p_active (fst (set_active sampleBar soloHeap (Some 7))) = Some 7 \<and>
   \<not> active (snd (set_active sampleBar soloHeap (Some 7)) 6) \<and>
   active (snd (set_active sampleBar soloHeap (Some 7)) 7) \<and>
   length (activeTabs (fst (set_active sampleBar soloHeap (Some 7)))
             (snd (set_active sampleBar soloHeap (Some 7)))) \<le> 1 \<and>
   distinct [5, 6, 7 :: nat] \<and>
   p_active (fst (onSlotchange sampleBar sampleHeap [5, 6, 7])) = Some 6 \<and>
   map (\<lambda>t. idx (fst (snd (onSlotchange sampleBar sampleHeap [5, 6, 7])) t)) [5, 6, 7]
     = [0, 1, 2] \<and>
   map (\<lambda>t. active (fst (snd (onSlotchange sampleBar sampleHeap [5, 6, 7])) t)) [5, 6, 7]
     = [False, True, False] \<and>
   length (activeTabs (fst (onSlotchange sampleBar sampleHeap [5, 6, 7]))
             (fst (snd (onSlotchange sampleBar sampleHeap [5, 6, 7])))) \<le> 1"
proof -
  have pre: "distinct (p_tabs sampleBar) \<and>
      set (activeTabs sampleBar soloHeap) \<subseteq> set_option (p_active sampleBar)"
    by (simp add: sampleBar_def soloHeap_def activeTabs_def)
  have d: "distinct [5, 6, 7 :: nat]" by simp
  from mp [OF tab_bar_one_active [of sampleBar "Some 7" soloHeap "[5, 6, 7]",
                THEN conjunct2, THEN conjunct2, THEN conjunct1] pre]
  have "length (activeTabs (fst (set_active sampleBar soloHeap (Some 7)))
             (snd (set_active sampleBar soloHeap (Some 7)))) \<le> 1"
    by (simp only: sample_set_active fst_conv snd_conv prod.case)
  moreover
  from mp [OF tab_bar_one_active [of sampleBar "Some 7" sampleHeap "[5, 6, 7]",
                THEN conjunct2, THEN conjunct2, THEN conjunct2] d]
  have "length (activeTabs (fst (onSlotchange sampleBar sampleHeap [5, 6, 7]))
             (fst (snd (onSlotchange sampleBar sampleHeap [5, 6, 7])))) \<le> 1"
    by (simp only: sample_slotchange fst_conv snd_conv prod.case)
  ultimately show ?thesis
    using pre
    by (simp only: sample_set_active sample_slotchange fst_conv snd_conv)
       (simp add: sampleBar_def)
qed

lemma stale_state_reached:
  "set_active (fst (onSlotchange sampleBar foreignHeap [5, 6, 7]))
     (fst (snd (onSlotchange sampleBar foreignHeap [5, 6, 7]))) (Some 9)
     = (staleBar, staleHeap)"
  by (simp add: onSlotchange_def set_active_def sampleBar_def sampleHeap_def foreignHeap_def
      staleBar_def staleHeap_def Let_def fun_eq_iff)

text \<open>
  C6, as the claim states it, fails where the recorded active tab's \<open>idx\<close> is above
  the number of tabs: after a slot change with three tabs, a tab with \<open>idx\<close> 5 is
  assigned to the bar's \<open>active\<close> property; then \<open>oldIdx\<close> is 5, \<open>_tabs[4]\<close> is
  undefined, and \<open>ArrowLeft\<close> ends in a TypeError instead of activating and focusing
  a tab.
\<close>

theorem keydown_stale_index:
  "set_active (fst (onSlotchange sampleBar foreignHeap [5, 6, 7]))
     (fst (snd (onSlotchange sampleBar foreignHeap [5, 6, 7]))) (Some 9)
     = (staleBar, staleHeap) \<and>
   oldIdx staleBar staleHeap = 5 \<and>
   0 < oldIdx staleBar staleHeap \<and>
   length (p_tabs staleBar) = 3 \<and>
   onKeydown staleBar staleHeap ''ArrowLeft'' = Inl TypeError \<and>
   onKeydown staleBar staleHeap ''ArrowLeft''
     \<noteq> Inr (activate staleHeap (p_tabs staleBar ! nat (oldIdx staleBar staleHeap - 1)),
            [p_tabs staleBar ! nat (oldIdx staleBar staleHeap - 1)])"
proof -
  have old: "oldIdx staleBar staleHeap = 5"
    by (simp add: oldIdx_def staleBar_def staleHeap_def)
  have n: "length (p_tabs staleBar) = 3"
    by (simp add: staleBar_def)
  have k: "onKeydown staleBar staleHeap ''ArrowLeft'' = Inl TypeError"
    by (simp add: onKeydown_def Let_def old n)
  from stale_state_reached old n k show ?thesis
    by simp
qed

text \<open>
  C6, amended. With \<open>oldIdx\<close> the recorded active tab's \<open>idx\<close> (0 when there is
  none) and \<open>n\<close> the number of tabs: \<open>ArrowLeft\<close> sets the \<open>active\<close> flag of the tab
  at \<open>oldIdx - 1\<close> and focuses it when \<open>0 < oldIdx \<le> n\<close>, and changes nothing when
  \<open>oldIdx = 0\<close>; \<open>ArrowRight\<close> does so for the tab at \<open>oldIdx + 1\<close> when
  \<open>oldIdx < n - 1\<close> and changes nothing otherwise; any other key changes nothing.
  \<open>oldIdx \<le> n\<close> holds after every slot change, which is where the bar assigns
  \<open>idx\<close> and records the active tab.
\<close>

theorem keydown_moves_active_tab:
  "(key = ''ArrowLeft'' \<and> 0 < oldIdx bar h \<and> oldIdx bar h \<le> int (length (p_tabs bar)) \<longrightarrow>
      onKeydown bar h key
        = Inr (activate h (p_tabs bar ! nat (oldIdx bar h - 1)),
               [p_tabs bar ! nat (oldIdx bar h - 1)])) \<and>
   (key = ''ArrowLeft'' \<and> \<not> 0 < oldIdx bar h \<longrightarrow> onKeydown bar h key = Inr (h, [])) \<and>
   (key = ''ArrowRight'' \<and> oldIdx bar h < int (length (p_tabs bar)) - 1 \<longrightarrow>
      onKeydown bar h key
        = Inr (activate h (p_tabs bar ! nat (oldIdx bar h + 1)),
               [p_tabs bar ! nat (oldIdx bar h + 1)])) \<and>
   (key = ''ArrowRight'' \<and> \<not> oldIdx bar h < int (length (p_tabs bar)) - 1 \<longrightarrow>
      onKeydown bar h key = Inr (h, [])) \<and>
   (key \<noteq> ''ArrowLeft'' \<and> key \<noteq> ''ArrowRight'' \<longrightarrow> onKeydown bar h key = Inr (h, [])) \<and>
   (distinct ts \<longrightarrow>
      (case onSlotchange bar h ts of (bar', h', evs) \<Rightarrow>
         oldIdx bar' h' \<le> int (length (p_tabs bar'))))"
proof -
  have nonneg: "0 \<le> oldIdx bar h"
    by (simp add: oldIdx_def split: option.splits)
  have keys: "onKeydown bar h key
      = (if key = ''ArrowLeft'' \<and> 0 < oldIdx bar h
         then (if oldIdx bar h \<le> int (length (p_tabs bar))
               then Inr (activate h (p_tabs bar ! nat (oldIdx bar h - 1)),
                         [p_tabs bar ! nat (oldIdx bar h - 1)])
               else Inl TypeError)
         else if key = ''ArrowRight'' \<and> oldIdx bar h < int (length (p_tabs bar)) - 1
         then Inr (activate h (p_tabs bar ! nat (oldIdx bar h + 1)),
                   [p_tabs bar ! nat (oldIdx bar h + 1)])
         else Inr (h, []))"
    using nonneg by (auto simp: onKeydown_def Let_def activate_def)
  have slot: "distinct ts \<longrightarrow>
      (case onSlotchange bar h ts of (bar', h', evs) \<Rightarrow>
         oldIdx bar' h' \<le> int (length (p_tabs bar')))"
  proof
    assume d: "distinct ts"
    obtain bar' h' evs where res: "onSlotchange bar h ts = (bar', h', evs)"
      by (cases "onSlotchange bar h ts")
    note r = onSlotchange_tabs [OF res]
    have "oldIdx bar' h' \<le> int (length ts)"
    proof (cases "find (\<lambda>t. active (h t)) ts")
      case None
      then show ?thesis by (simp add: oldIdx_def r(2))
    next
      case (Some a)
      then have "a \<in> set ts"
        by (auto simp: find_Some_iff)
      then obtain j where j: "j < length ts" "a = ts ! j"
        by (auto simp: in_set_conv_nth)
      then have "idx (h' a) = j"
        using slotLoop_idx [OF d j(1), of 0 None h] by (simp add: r(3))
      with j Some show ?thesis by (simp add: oldIdx_def r(2))
    qed
    then show "case onSlotchange bar h ts of (bar', h', evs) \<Rightarrow>
         oldIdx bar' h' \<le> int (length (p_tabs bar'))"
      unfolding res prod.case by (simp add: r(1))
  qed
  show ?thesis
    unfolding keys using slot by simp
qed

theorem keydown_moves_active_tab_witness:
  "oldIdx (fst (onSlotchange sampleBar sampleHeap [5, 6, 7]))
     (fst (snd (onSlotchange sampleBar sampleHeap [5, 6, 7]))) = 1 \<and>
   p_tabs (fst (onSlotchange sampleBar sampleHeap [5, 6, 7])) = [5, 6, 7] \<and>
   onKeydown (fst (onSlotchange sampleBar sampleHeap [5, 6, 7]))
     (fst (snd (onSlotchange sampleBar sampleHeap [5, 6, 7]))) ''ArrowLeft''
     = Inr (activate (fst (snd (onSlotchange sampleBar sampleHeap [5, 6, 7]))) 5, [5]) \<and>
   onKeydown (fst (onSlotchange sampleBar sampleHeap [5, 6, 7]))
     (fst (snd (onSlotchange sampleBar sampleHeap [5, 6, 7]))) ''ArrowRight''
     = Inr (activate (fst (snd (onSlotchange sampleBar sampleHeap [5, 6, 7]))) 7, [7]) \<and>
   onKeydown (fst (onSlotchange sampleBar sampleHeap [5, 6, 7]))
     (fst (snd (onSlotchange sampleBar sampleHeap [5, 6, 7]))) ''Enter''
     = Inr (fst (snd (onSlotchange sampleBar sampleHeap [5, 6, 7])), [])"
proof -
  let ?bar = "fst (onSlotchange sampleBar sampleHeap [5, 6, 7])"
  let ?h = "fst (snd (onSlotchange sampleBar sampleHeap [5, 6, 7]))"
  have old: "oldIdx ?bar ?h = 1"
    by (simp only: sample_slotchange fst_conv snd_conv) (simp add: oldIdx_def)
  have tabs: "p_tabs ?bar = [5, 6, 7]"
    by (simp only: sample_slotchange fst_conv snd_conv) simp
  note k = keydown_moves_active_tab [of _ ?bar ?h "[5, 6, 7]", unfolded old tabs]
  from k [of "''ArrowLeft''"]
  have l: "onKeydown ?bar ?h ''ArrowLeft'' = Inr (activate ?h 5, [5])" by simp
  from k [of "''ArrowRight''"]
  have r: "onKeydown ?bar ?h ''ArrowRight'' = Inr (activate ?h 7, [7])" by simp
  from k [of "''Enter''"]
  have e: "onKeydown ?bar ?h ''Enter'' = Inr (?h, [])" by simp
  from old tabs l r e show ?thesis by blast
qed

section \<open>Properties of the diagnostics conversion and of the host\<close>

text \<open>
  C9. \<open>makeLspDiagnostic\<close> gives every TypeScript diagnostic an LSP diagnostic (the
  function has no failing branch): the severity is 1 for \<open>Error\<close>, 2 for \<open>Warning\<close>, 3
  for \<open>Message\<close>, 4 for \<open>Suggestion\<close>; the source is \<open>typescript\<close> when the input has
  none and the input's source otherwise; the start of the range is line 0, character 0
  when the file or the start offset is undefined, and the end is line 0, character 0 when
  the file, the start offset or the length is undefined; otherwise they are the
  positions of the start offset and of the start offset plus the length in the file.
\<close>

theorem makeLspDiagnostic_fields:
  "(ts_category d = Error \<longrightarrow> lsp_severity (makeLspDiagnostic env d) = 1) \<and>
   (ts_category d = Warning \<longrightarrow> lsp_severity (makeLspDiagnostic env d) = 2) \<and>
   (ts_category d = Message \<longrightarrow> lsp_severity (makeLspDiagnostic env d) = 3) \<and>
   (ts_category d = Suggestion \<longrightarrow> lsp_severity (makeLspDiagnostic env d) = 4) \<and>
   (ts_source d = None \<longrightarrow> lsp_source (makeLspDiagnostic env d) = ''typescript'') \<and>
   (\<forall>s. ts_source d = Some s \<longrightarrow> lsp_source (makeLspDiagnostic env d) = s) \<and>
   (ts_file d = None \<or> ts_start d = None \<longrightarrow>
      range_start (lsp_range (makeLspDiagnostic env d)) = \<lparr> line = 0, character = 0 \<rparr>) \<and>
   (ts_file d = None \<or> ts_start d = None \<or> ts_length d = None \<longrightarrow>
      range_end (lsp_range (makeLspDiagnostic env d)) = \<lparr> line = 0, character = 0 \<rparr>) \<and>
   (\<forall>f s. ts_file d = Some f \<and> ts_start d = Some s \<longrightarrow>
      range_start (lsp_range (makeLspDiagnostic env d))
        = getLineAndCharacterOfPosition env f s) \<and>
   (\<forall>f s l. ts_file d = Some f \<and> ts_start d = Some s \<and> ts_length d = Some l \<longrightarrow>
      range_end (lsp_range (makeLspDiagnostic env d))
        = getLineAndCharacterOfPosition env f (s + l)) \<and>
   lsp_code (makeLspDiagnostic env d) = ts_code d \<and>
   lsp_message (makeLspDiagnostic env d)
     = flattenDiagnosticMessageText env (ts_messageText d) [CHR 0x0A]"
  by (auto simp: makeLspDiagnostic_def diagnosticCategoryMapping_def split: option.splits)

theorem makeLspDiagnostic_fields_witness:
  "ts_category sampleDiagnostic = Error \<and>
   ts_source sampleDiagnostic = None \<and>
   makeLspDiagnostic sampleEnv sampleDiagnostic
     = \<lparr> lsp_code = 1005, lsp_source = ''typescript'', lsp_message = ''; expected'',
         lsp_severity = 1,
         lsp_range = \<lparr> range_start = \<lparr> line = 0, character = 3 \<rparr>,
                       range_end = \<lparr> line = 0, character = 5 \<rparr> \<rparr> \<rparr> \<and>
   ts_length (sampleDiagnostic\<lparr>ts_length := None\<rparr>) = None \<and>
   lsp_range (makeLspDiagnostic sampleEnv (sampleDiagnostic\<lparr>ts_length := None\<rparr>))
     = \<lparr> range_start = \<lparr> line = 0, character = 3 \<rparr>,
         range_end = \<lparr> line = 0, character = 0 \<rparr> \<rparr>"
  using makeLspDiagnostic_fields [of sampleDiagnostic sampleEnv]
        makeLspDiagnostic_fields [of "sampleDiagnostic\<lparr>ts_length := None\<rparr>" sampleEnv]
  by (simp add: sampleDiagnostic_def sampleEnv_def makeLspDiagnostic_def
      diagnosticCategoryMapping_def)

text \<open>
  C4. For every file name and every file map: \<open>fileExists\<close> is true exactly if the map
  has an entry for the name whose status is \<open>resolved\<close>; then \<open>readFile\<close> returns that
  entry's content and \<open>getScriptSnapshot\<close> a snapshot of the same content; otherwise
  (no entry, a \<open>pending\<close> entry or a \<open>redirected\<close> entry) \<open>readFile\<close> and
  \<open>getScriptSnapshot\<close> return undefined. These are the functions the host object
  offers.
\<close>

theorem host_sees_resolved_files_only:
  "(fileExists fs n \<longleftrightarrow> (\<exists>u c. map_of fs n = Some (Resolved u c))) \<and>
   (\<forall>u c. map_of fs n = Some (Resolved u c) \<longrightarrow>
      readFile fs n = Some c \<and> getScriptSnapshot fs n = Some (FromString (Some c))) \<and>
   (\<not> fileExists fs n \<longrightarrow> readFile fs n = None \<and> getScriptSnapshot fs n = None) \<and>
   (map_of fs n = Some Pending \<longrightarrow> \<not> fileExists fs n) \<and>
   (\<forall>r. map_of fs n = Some (Redirected r) \<longrightarrow> \<not> fileExists fs n) \<and>
   (map_of fs n = None \<longrightarrow> \<not> fileExists fs n) \<and>
   host_fileExists (WorkerLanguageServiceHost fs root opts) = fileExists fs \<and>
   host_readFile (WorkerLanguageServiceHost fs root opts) = readFile fs \<and>
   host_getScriptSnapshot (WorkerLanguageServiceHost fs root opts) = getScriptSnapshot fs"
  by (auto simp: fileExists_def readFile_def getScriptSnapshot_def WorkerLanguageServiceHost_def
      split: option.splits FileRecord.splits)

theorem host_sees_resolved_files_only_witness:
  "map_of sampleLoaded ''http://localhost/a.ts'' = Some (Resolved None ''let a'') \<and>
   fileExists sampleLoaded ''http://localhost/a.ts'' \<and>
   readFile sampleLoaded ''http://localhost/a.ts'' = Some ''let a'' \<and>
   getScriptSnapshot sampleLoaded ''http://localhost/a.ts'' = Some (FromString (Some ''let a'')) \<and>
   map_of sampleLoaded ''http://localhost/b.ts'' = Some Pending \<and>
   \<not> fileExists sampleLoaded ''http://localhost/b.ts'' \<and>
   readFile sampleLoaded ''http://localhost/b.ts'' = None \<and>
   getScriptSnapshot sampleLoaded ''http://localhost/b.ts'' = None \<and>
   map_of sampleLoaded ''http://localhost/c.ts'' = Some (Redirected ''http://localhost/a.ts'') \<and>
   \<not> fileExists sampleLoaded ''http://localhost/c.ts'' \<and>
   readFile sampleLoaded ''http://localhost/c.ts'' = None \<and>
   map_of sampleLoaded ''http://localhost/d.ts'' = None \<and>
   \<not> fileExists sampleLoaded ''http://localhost/d.ts'' \<and>
   getScriptSnapshot sampleLoaded ''http://localhost/d.ts'' = None"
proof -
  have a: "map_of sampleLoaded ''http://localhost/a.ts'' = Some (Resolved None ''let a'')"
    and b: "map_of sampleLoaded ''http://localhost/b.ts'' = Some Pending"
    and c: "map_of sampleLoaded ''http://localhost/c.ts''
              = Some (Redirected ''http://localhost/a.ts'')"
    and d: "map_of sampleLoaded ''http://localhost/d.ts'' = None"
    by (simp_all add: sampleLoaded_def)
  show ?thesis
    using host_sees_resolved_files_only [of sampleLoaded "''http://localhost/a.ts''"]
          host_sees_resolved_files_only [of sampleLoaded "''http://localhost/b.ts''"]
          host_sees_resolved_files_only [of sampleLoaded "''http://localhost/c.ts''"]
          host_sees_resolved_files_only [of sampleLoaded "''http://localhost/d.ts''"]
    by (simp add: a b c d)
qed

section \<open>Properties of the file editor\<close>

lemma findIndex_find: "map_option (\<lambda>i. xs ! i) (findIndex P xs) = find P xs"
  by (induction xs) (simp_all add: option.map_comp comp_def)

lemma findIndex_Some:
  "findIndex P xs = Some i \<Longrightarrow> i < length xs \<and> P (xs ! i) \<and> (\<forall>j<i. \<not> P (xs ! j))"
proof (induction xs arbitrary: i)
  case Nil
  then show ?case by simp
next
  case (Cons x xs)
  show ?case
  proof (cases "P x")
    case True
    with Cons.prems show ?thesis by simp
  next
    case False
    with Cons.prems obtain i' where i': "findIndex P xs = Some i'" "i = Suc i'"
      by auto
    from Cons.IH [OF i'(1)] False i'(2) show ?thesis
      by (auto simp: less_Suc_eq_0_disj)
  qed
qed

lemma currentFile_find:
  "currentFile ed =
     (case filename ed of
        None \<Rightarrow> None
      | Some f \<Rightarrow> if f = [] then None else find (\<lambda>file. name file = f) (files_of ed))"
  by (simp add: currentFile_def currentFileIndex_def findIndex_find split: option.splits)

lemma currentFile_None: "currentFile ed = None \<longleftrightarrow> currentFileIndex ed = None"
  by (simp add: currentFile_def)

lemma files_of_project: "files_of ed \<noteq> [] \<Longrightarrow> \<exists>p. p_project ed = Some p"
  by (cases "p_project ed") (simp_all add: files_of_def)

text \<open>
  C7, as the claim states it, fails where \<open>filename\<close> is the empty string: the project
  has a file of that name, and the editor's value is the empty string, not that file's
  content (the getter of the current file takes an empty \<open>filename\<close> for none).
\<close>

theorem file_editor_empty_filename:
  "filename emptyNameEditor = Some (name emptyNameFile) \<and>
   files_of emptyNameEditor = [emptyNameFile] \<and>
   prop_value (render emptyNameEditor) \<noteq> content emptyNameFile"
  by (simp add: emptyNameEditor_def emptyNameFile_def render_def currentFile_def
      currentFileIndex_def files_of_def)

text \<open>
  C7, amended. The file editor binds to the project model by name. When \<open>filename\<close> is
  a non-empty string, the code editor's value is the content of the first project file
  whose name equals \<open>filename\<close>, and the empty string when there is no such file; when
  \<open>filename\<close> is undefined or empty, the value is the empty string. The diagnostics
  are the project's diagnostics for the current file's name, which is \<open>filename\<close>
  (for the empty name when there is no current file).
  On an edit event, if a current file exists, the editor's value is written into that
  file's content (nothing else of the files changes) and one debounced save is requested
  of the project; if no current file exists, the edit changes nothing.
\<close>

theorem file_editor_binds_by_name:
  "prop_value (render ed) =
     (case filename ed of
        None \<Rightarrow> []
      | Some f \<Rightarrow>
          if f = [] then []
          else (case find (\<lambda>file. name file = f) (files_of ed) of
                  None \<Rightarrow> []
                | Some file \<Rightarrow> content file)) \<and>
   (\<forall>file. currentFile ed = Some file \<longrightarrow>
      filename ed = Some (name file) \<and> name file \<noteq> [] \<and>
      find (\<lambda>x. name x = name file) (files_of ed) = Some file \<and>
      prop_value (render ed) = content file \<and>
      (\<forall>p ds. p_project ed = Some p \<and> project_diagnostics p = Some ds \<longrightarrow>
         prop_diagnostics (render ed) = map_of ds (name file))) \<and>
   (currentFile ed = None \<longrightarrow>
      prop_value (render ed) = [] \<and>
      (\<forall>p ds. p_project ed = Some p \<and> project_diagnostics p = Some ds \<longrightarrow>
         prop_diagnostics (render ed) = map_of ds [])) \<and>
   (p_project ed = None \<or> Option.bind (p_project ed) project_diagnostics = None \<longrightarrow>
      prop_diagnostics (render ed) = None) \<and>
   (\<forall>i. currentFileIndex ed = Some i \<longrightarrow>
      i < length (files_of ed) \<and> currentFile ed = Some (files_of ed ! i) \<and>
      files_of (onEdit ed) = (files_of ed)[i := (files_of ed ! i)\<lparr>content := editor_value ed\<rparr>] \<and>
      (\<exists>p. p_project ed = Some p \<and>
           p_project (onEdit ed)
             = Some (p\<lparr>project_files := Some (files_of (onEdit ed)),
                       saveDebouncedCalls := Suc (saveDebouncedCalls p)\<rparr>)) \<and>
      filename (onEdit ed) = filename ed \<and> editor_value (onEdit ed) = editor_value ed) \<and>
   (currentFileIndex ed = None \<longrightarrow> currentFile ed = None \<and> onEdit ed = ed)"
proof (intro conjI allI impI)
  show "prop_value (render ed) =
     (case filename ed of
        None \<Rightarrow> []
      | Some f \<Rightarrow>
          if f = [] then []
          else (case find (\<lambda>file. name file = f) (files_of ed) of
                  None \<Rightarrow> []
                | Some file \<Rightarrow> content file))"
    by (simp add: render_def currentFile_find split: option.splits)
next
  fix cur assume cf: "currentFile ed = Some cur"
  then obtain f where f: "filename ed = Some f" "f \<noteq> []"
      "find (\<lambda>x. name x = f) (files_of ed) = Some cur"
    by (auto simp: currentFile_find split: option.splits if_splits)
  then have n: "name cur = f"
    by (auto simp: find_Some_iff)
  show "filename ed = Some (name cur)" using f n by simp
  show "name cur \<noteq> []" using f n by simp
  show "find (\<lambda>x. name x = name cur) (files_of ed) = Some cur" using f n by simp
  show "prop_value (render ed) = content cur" using cf by (simp add: render_def)
  fix p ds assume "p_project ed = Some p \<and> project_diagnostics p = Some ds"
  with cf show "prop_diagnostics (render ed) = map_of ds (name cur)"
    by (simp add: render_def)
next
  assume cf: "currentFile ed = None"
  then show "prop_value (render ed) = []" by (simp add: render_def)
  fix p ds assume "p_project ed = Some p \<and> project_diagnostics p = Some ds"
  with cf show "prop_diagnostics (render ed) = map_of ds []"
    by (simp add: render_def)
next
  assume "p_project ed = None \<or> Option.bind (p_project ed) project_diagnostics = None"
  then show "prop_diagnostics (render ed) = None"
    by (auto simp: render_def split: option.splits)
next
  fix i assume i: "currentFileIndex ed = Some i"
  then obtain f where f: "filename ed = Some f" "f \<noteq> []"
      "findIndex (\<lambda>file. name file = f) (files_of ed) = Some i"
    by (auto simp: currentFileIndex_def split: option.splits if_splits)
  from findIndex_Some [OF f(3)] show len: "i < length (files_of ed)" by simp
  show "currentFile ed = Some (files_of ed ! i)" using i by (simp add: currentFile_def)
  from len have "files_of ed \<noteq> []" by auto
  then obtain p where p: "p_project ed = Some p"
    using files_of_project by blast
  from i p have e: "onEdit ed
      = ed\<lparr>p_project := Some (p\<lparr>project_files :=
              Some ((files_of ed)[i := (files_of ed ! i)\<lparr>content := editor_value ed\<rparr>]),
            saveDebouncedCalls := Suc (saveDebouncedCalls p)\<rparr>)\<rparr>"
    by (simp add: onEdit_def)
  show fo: "files_of (onEdit ed)
      = (files_of ed)[i := (files_of ed ! i)\<lparr>content := editor_value ed\<rparr>]"
    by (simp add: e files_of_def)
  show "\<exists>p. p_project ed = Some p \<and>
           p_project (onEdit ed)
             = Some (p\<lparr>project_files := Some (files_of (onEdit ed)),
                       saveDebouncedCalls := Suc (saveDebouncedCalls p)\<rparr>)"
    using p by (simp add: fo) (simp add: e)
  show "filename (onEdit ed) = filename ed" by (simp add: e)
  show "editor_value (onEdit ed) = editor_value ed" by (simp add: e)
next
  assume n: "currentFileIndex ed = None"
  then show "currentFile ed = None" by (simp add: currentFile_def)
  from n show "onEdit ed = ed" by (simp add: onEdit_def)
qed

theorem file_editor_binds_by_name_witness:
  "currentFileIndex sampleEditor = Some 1 \<and>
   currentFile sampleEditor
     = Some \<lparr> name = ''a.ts'', content = ''let a'', contentType = Some ''video/mp2t'' \<rparr> \<and>
   prop_value (render sampleEditor) = ''let a'' \<and>
   prop_diagnostics (render sampleEditor) = Some [makeLspDiagnostic sampleEnv sampleDiagnostic] \<and>
   files_of (onEdit sampleEditor)
     = [\<lparr> name = ''index.html'', content = ''<p>'', contentType = Some ''text/html'' \<rparr>,
        \<lparr> name = ''a.ts'', content = ''let b'', contentType = Some ''video/mp2t'' \<rparr>] \<and>
   map_option saveDebouncedCalls (p_project (onEdit sampleEditor)) = Some 1 \<and>
   currentFileIndex emptyNameEditor = None \<and>
   prop_value (render emptyNameEditor) = [] \<and>
   onEdit emptyNameEditor = emptyNameEditor"
proof -
  have i: "currentFileIndex sampleEditor = Some 1"
    by (simp add: currentFileIndex_def sampleEditor_def sampleProject_def files_of_def)
  have fs: "files_of sampleEditor
      = [\<lparr> name = ''index.html'', content = ''<p>'', contentType = Some ''text/html'' \<rparr>,
         \<lparr> name = ''a.ts'', content = ''let a'', contentType = Some ''video/mp2t'' \<rparr>]"
    by (simp add: sampleEditor_def sampleProject_def files_of_def)
  have p: "p_project sampleEditor = Some sampleProject"
    "project_diagnostics sampleProject
       = Some [(''a.ts'', [makeLspDiagnostic sampleEnv sampleDiagnostic])]"
    "editor_value sampleEditor = ''let b''" "saveDebouncedCalls sampleProject = 0"
    by (simp_all add: sampleEditor_def sampleProject_def)
  have n: "currentFileIndex emptyNameEditor = None"
    by (simp add: currentFileIndex_def emptyNameEditor_def)
  note t = file_editor_binds_by_name [of sampleEditor]
  note u = file_editor_binds_by_name [of emptyNameEditor]
  from t i have cf: "currentFile sampleEditor = Some (files_of sampleEditor ! 1)"
    by blast
  from t i have fo: "files_of (onEdit sampleEditor)
      = (files_of sampleEditor)[1 := (files_of sampleEditor ! 1)\<lparr>content := editor_value sampleEditor\<rparr>]"
    by blast
  from t i obtain q where q: "p_project sampleEditor = Some q"
      "p_project (onEdit sampleEditor)
         = Some (q\<lparr>project_files := Some (files_of (onEdit sampleEditor)),
                   saveDebouncedCalls := Suc (saveDebouncedCalls q)\<rparr>)"
    by blast
  from t cf have v: "prop_value (render sampleEditor) = content (files_of sampleEditor ! 1)"
    by blast
  from t cf p have dg: "prop_diagnostics (render sampleEditor)
      = map_of [(''a.ts'', [makeLspDiagnostic sampleEnv sampleDiagnostic])]
          (name (files_of sampleEditor ! 1))"
    by blast
  from u n have e: "currentFile emptyNameEditor = None" "onEdit emptyNameEditor = emptyNameEditor"
    by blast+
  from u e(1) have ev: "prop_value (render emptyNameEditor) = []"
    by blast
  show ?thesis
    using i cf fo q v dg n e ev p by (simp add: fs)
qed

section \<open>Properties of \<open>compileProject\<close>\<close>

lemma loadInputs_keys:
  "fst ` set (fst (loadInputs inputs (l, r))) = fst ` set l \<union> snd ` set inputs"
proof (induction inputs arbitrary: l r)
  case Nil
  show ?case by simp
next
  case (Cons x inputs)
  obtain f u where x: "x = (f, u)" by (cases x)
  show ?case
    unfolding x by (simp add: Cons.IH dom_update; blast)
qed

lemma loadInputs_entries:
  "(u, rec) \<in> set (fst (loadInputs inputs (l, r))) \<Longrightarrow>
     (u, rec) \<in> set l \<or> (\<exists>f. (f, u) \<in> set inputs \<and> rec = Resolved None (content f))"
proof (induction inputs arbitrary: l r)
  case Nil
  then show ?case by simp
next
  case (Cons x inputs)
  obtain f v where x: "x = (f, v)" by (cases x)
  from Cons.prems have "(u, rec) \<in> set (AList.update v (Resolved None (content f)) l)
      \<or> (\<exists>f. (f, u) \<in> set inputs \<and> rec = Resolved None (content f))"
    unfolding x by (auto dest: Cons.IH)
  moreover have "(u, rec) \<in> set (AList.update v (Resolved None (content f)) l) \<Longrightarrow>
      (u, rec) \<in> set l \<or> (u = v \<and> rec = Resolved None (content f))"
    by (induction l) (auto split: if_splits)
  ultimately show ?case
    unfolding x by auto
qed

lemma fold_update_map_of:
  "map_of (fold (\<lambda>(k, v). AList.update k v) ws e) = map_of e ++ map_of (rev ws)"
proof (induction ws arbitrary: e)
  case Nil
  show ?case by simp
next
  case (Cons w ws)
  obtain k v where w: "w = (k, v)" by (cases w)
  show ?case
    unfolding w by (simp add: Cons.IH update_conv' map_add_upd_left fun_eq_iff map_add_def
        split: option.splits)
qed

lemma fold_update_keys:
  "fst ` set (fold (\<lambda>(k, v). AList.update k v) ws e) = fst ` set e \<union> fst ` set ws"
proof (induction ws arbitrary: e)
  case Nil
  show ?case by simp
next
  case (Cons w ws)
  obtain k v where w: "w = (k, v)" by (cases w)
  show ?case
    unfolding w by (auto simp: Cons.IH dom_update)
qed

lemma fastPass_emitted:
  "fst (fastPass env host p t inputs (e, d))
     = fold (\<lambda>(k, v). AList.update k v)
         (concat (map (\<lambda>(f, u). emit env p (getSourceFile env p u) t) inputs)) e"
  by (induction inputs arbitrary: e d) (auto simp: Let_def)

lemma fastPass_keys:
  "fst ` set (snd (fastPass env host p t inputs (e, d)))
     = fst ` set d \<union> (\<lambda>(f, u). name f) ` set inputs"
proof (induction inputs arbitrary: e d)
  case Nil
  show ?case by simp
next
  case (Cons x inputs)
  obtain f u where x: "x = (f, u)" by (cases x)
  show ?case
    unfolding x by (simp add: Let_def Cons.IH dom_update; blast)
qed

lemma fastPass_values:
  assumes "\<forall>(f, u)\<in>set inputs. u = g (name f)"
  shows "map_of (snd (fastPass env host p t inputs (e, d))) n
     = (if n \<in> (\<lambda>(f, u). name f) ` set inputs
        then Some (map (makeLspDiagnostic env) (getSyntacticDiagnostics env host (g n)))
        else map_of d n)"
  using assms
proof (induction inputs arbitrary: e d)
  case Nil
  show ?case by simp
next
  case (Cons x inputs)
  obtain f u where x: "x = (f, u)" by (cases x)
  from Cons.prems have u: "u = g (name f)" and rest: "\<forall>(f, u)\<in>set inputs. u = g (name f)"
    unfolding x by auto
  show ?case
    unfolding x using u by (auto simp: Let_def Cons.IH [OF rest] update_conv')
qed

lemma slowPass_keys:
  "fst ` set (slowPass env host inputs d) = fst ` set d \<union> (\<lambda>(f, u). name f) ` set inputs"
proof (induction inputs arbitrary: d)
  case Nil
  show ?case by simp
next
  case (Cons x inputs)
  obtain f u where x: "x = (f, u)" by (cases x)
  show ?case
    unfolding x by (simp add: Cons.IH dom_update; blast)
qed




lemma inputFiles_urls: "\<forall>(f, u)\<in>set (inputFiles env fs). u = newURL env (name f) (origin env)"
  by (auto simp: inputFiles_def)

lemma inputFiles_names:
  "(\<lambda>(f, u). name f) ` set (inputFiles env fs) = name ` {f \<in> set fs. isTsOrJsFile (name f)}"
  by (auto simp: inputFiles_def image_iff)

lemma inputFiles_filter:
  "inputFiles env (filter (\<lambda>f. isTsOrJsFile (name f)) fs) = inputFiles env fs"
  by (simp add: inputFiles_def)

lemma inputFileMap_keys:
  "fst ` set (inputFileMap env fs) = inputUrl env ` {f \<in> set fs. isTsOrJsFile (name f)}"
  by (auto simp: inputFileMap_def loadInputs_keys inputFiles_def inputUrl_def image_iff)

lemma compileProject_unfold:
  "compileProject env fs im =
     (case getProgram env (fastHost env fs) of
        None \<Rightarrow>
          \<lparr> promise = Inl ProgramUndefined, loadedFiles = inputFileMap env fs,
            requests = typeRequests env fs, trace = [Threw ProgramUndefined] \<rparr>
      | Some program \<Rightarrow>
          \<lparr> promise =
              Inr \<lparr> result_files =
                      fst (fastPass env (fastHost env fs) program (transformerOf env im)
                             (inputFiles env fs) ([], [])),
                    result_diagnostics =
                      snd (fastPass env (fastHost env fs) program (transformerOf env im)
                             (inputFiles env fs) ([], [])) \<rparr>,
            loadedFiles =
              fst (afterTypes env (inputFiles env fs) (inputFileMap env fs)
                     (getFiles env im (typeRequests env fs))),
            requests = typeRequests env fs,
            trace =
              Returned
                \<lparr> result_files =
                    fst (fastPass env (fastHost env fs) program (transformerOf env im)
                           (inputFiles env fs) ([], [])),
                  result_diagnostics =
                    snd (fastPass env (fastHost env fs) program (transformerOf env im)
                           (inputFiles env fs) ([], [])) \<rparr>
              # snd (afterTypes env (inputFiles env fs) (inputFileMap env fs)
                       (getFiles env im (typeRequests env fs))) \<rparr>)"
  by (simp add: compileProject_def Let_def split_def inputFileMap_def fastHost_def
      transformerOf_def typeRequests_def split: option.splits)

lemma makeLspDiagnostic_getFiles:
  "makeLspDiagnostic (env\<lparr>getFiles := g\<rparr>) = makeLspDiagnostic env"
  by (simp add: fun_eq_iff makeLspDiagnostic_def split: option.splits)

lemma fastPass_getFiles:
  "fastPass (env\<lparr>getFiles := g\<rparr>) host p t inputs (e, d) = fastPass env host p t inputs (e, d)"
  by (induction inputs arbitrary: e d) (auto simp: Let_def makeLspDiagnostic_getFiles)

lemma promise_getFiles:
  "promise (compileProject (env\<lparr>getFiles := g\<rparr>) fs im) = promise (compileProject env fs im)"
proof -
  have "inputFiles (env\<lparr>getFiles := g\<rparr>) fs = inputFiles env fs"
    by (simp add: inputFiles_def)
  then have "fastHost (env\<lparr>getFiles := g\<rparr>) fs = fastHost env fs"
    by (simp add: fastHost_def inputFileMap_def)
  moreover have "transformerOf (env\<lparr>getFiles := g\<rparr>) im = transformerOf env im"
    by (simp add: transformerOf_def)
  moreover note \<open>inputFiles (env\<lparr>getFiles := g\<rparr>) fs = inputFiles env fs\<close>
  ultimately show ?thesis
    by (simp add: compileProject_unfold fastPass_getFiles split: option.splits)
qed


lemma fast_diagnostics_value:
  assumes "promise (compileProject env fs im) = Inr res"
    and "f \<in> set fs" and "isTsOrJsFile (name f)"
  shows "map_of (result_diagnostics res) (name f)
     = Some (map (makeLspDiagnostic env)
              (getSyntacticDiagnostics env (fastHost env fs) (inputUrl env f)))"
proof -
  from assms(1) obtain program where
    res: "result_diagnostics res
      = snd (fastPass env (fastHost env fs) program (transformerOf env im)
               (inputFiles env fs) ([], []))"
    by (auto simp: compileProject_unfold split: option.splits)
  have "name f \<in> (\<lambda>(f, u). name f) ` set (inputFiles env fs)"
    using assms(2,3) by (auto simp: inputFiles_names)
  then show ?thesis
    unfolding res
    by (simp add: fastPass_values [OF inputFiles_urls] inputUrl_def)
qed

lemma fast_diagnostics_keys:
  assumes "promise (compileProject env fs im) = Inr res"
  shows "fst ` set (result_diagnostics res) = name ` {f \<in> set fs. isTsOrJsFile (name f)}"
proof -
  from assms obtain program where
    res: "result_diagnostics res
      = snd (fastPass env (fastHost env fs) program (transformerOf env im)
               (inputFiles env fs) ([], []))"
    by (auto simp: compileProject_unfold split: option.splits)
  show ?thesis
    unfolding res by (simp add: fastPass_keys inputFiles_names)
qed

lemma emitted_files:
  assumes "promise (compileProject env fs im) = Inr res"
  shows "\<exists>program. getProgram env (fastHost env fs) = Some program \<and>
     result_files res
       = fold (\<lambda>(k, v). AList.update k v)
           (concat (map (\<lambda>f. emit env program (getSourceFile env program (inputUrl env f))
                              (transformerOf env im))
                      (filter (\<lambda>f. isTsOrJsFile (name f)) fs))) []"
proof -
  from assms obtain program where p: "getProgram env (fastHost env fs) = Some program"
    and res: "result_files res
      = fst (fastPass env (fastHost env fs) program (transformerOf env im)
               (inputFiles env fs) ([], []))"
    by (auto simp: compileProject_unfold split: option.splits)
  have "map (\<lambda>(f, u). emit env program (getSourceFile env program u) (transformerOf env im))
          (inputFiles env fs)
      = map (\<lambda>f. emit env program (getSourceFile env program (inputUrl env f))
                    (transformerOf env im))
          (filter (\<lambda>f. isTsOrJsFile (name f)) fs)"
    by (simp add: inputFiles_def inputUrl_def comp_def)
  with p res show ?thesis
    by (simp add: fastPass_emitted)
qed

lemma trace_cases:
  "(\<exists>res. promise (compileProject env fs im) = Inr res \<and>
      ((\<exists>fetched. getFiles env im (typeRequests env fs) = Fulfilled fetched \<and>
          loadedFiles (compileProject env fs im) = addTypeFiles env fetched (inputFileMap env fs) \<and>
          trace (compileProject env fs im)
            = Returned res # map (\<lambda>(s, c). TypeFileSet (typeFileUrl env s) c) fetched
                @ [SlowDiagnosticsCallback
                     (slowPass env
                        (WorkerLanguageServiceHost (addTypeFiles env fetched (inputFileMap env fs))
                           (origin env) compilerOptions)
                        (inputFiles env fs) [])]) \<or>
       ((\<forall>fetched. getFiles env im (typeRequests env fs) \<noteq> Fulfilled fetched) \<and>
          loadedFiles (compileProject env fs im) = inputFileMap env fs \<and>
          trace (compileProject env fs im) = [Returned res]))) \<or>
   (promise (compileProject env fs im) = Inl ProgramUndefined \<and>
      trace (compileProject env fs im) = [Threw ProgramUndefined])"
  by (cases "getFiles env im (typeRequests env fs)")
     (auto simp: compileProject_unfold afterTypes_def Let_def split: option.splits)

lemma sample_inputs:
  "inputFiles sampleEnv sampleFiles
     = [(\<lparr> name = ''a.ts'', content = ''let a'', contentType = Some ''video/mp2t'' \<rparr>,
         ''http://localhost/a.ts'')]"
  by (simp add: inputFiles_def sampleFiles_def sampleEnv_def isTsOrJsFile_def endsWith_def)

lemma sample_env_fields:
  "origin sampleEnv = ''http://localhost''"
  "newURL sampleEnv = (\<lambda>rel base. base @ ''/'' @ rel)"
  "getProgram sampleEnv = (\<lambda>host. Some ())"
  "getFiles sampleEnv = (\<lambda>importMap reqs. Fulfilled [(''lit/index.d.ts'', ''export {}'')])"
  "getSourceFile sampleEnv
     = (\<lambda>program url. if url = ''http://localhost/a.ts'' then Some sampleTree else None)"
  "emit sampleEnv
     = (\<lambda>program sourceFile transformer.
            case sourceFile of
              None \<Rightarrow> []
            | Some n \<Rightarrow> [(''http://localhost/a.js'', concat (importSpecifiers (transformer n)))])"
  "getSyntacticDiagnostics sampleEnv
     = (\<lambda>host url. if host_fileExists host url then [sampleDiagnostic] else [])"
  "getSemanticDiagnostics sampleEnv
     = (\<lambda>host url.
            if host_fileExists host ''http://localhost/node_modules/lit/index.d.ts'' then []
            else [sampleDiagnostic\<lparr>ts_code := 2307, ts_length := None\<rparr>])"
  "resolve sampleEnv = (\<lambda>importMap specifier base. sampleResolver specifier)"
  by (simp_all add: sampleEnv_def)

lemma sample_compile:
  "compileProject sampleEnv sampleFiles []
     = \<lparr> promise = Inr sampleResult,
         loadedFiles =
           [(''http://localhost/a.ts'', Resolved None ''let a''),
            (''http://localhost/node_modules/lit/index.d.ts'', Resolved None ''export {}'')],
         requests = [AddBareModuleTypings ''let a'', AddLibTypings ''dom'', AddLibTypings ''esnext''],
         trace =
           [Returned sampleResult,
            TypeFileSet ''http://localhost/node_modules/lit/index.d.ts'' ''export {}'',
            SlowDiagnosticsCallback [(''a.ts'', [])]] \<rparr>"
  by (simp add: compileProject_def sample_inputs sample_env_fields Let_def afterTypes_def
      WorkerLanguageServiceHost_def fileExists_def typeFileUrl_def compilerOptions_def
      sampleResult_def sampleTree_def sampleResolver_def)

text \<open>
  C1. Whenever \<open>compileProject\<close> returns a result: for each input file whose name ends
  in \<open>.ts\<close> or \<open>.js\<close>, the diagnostics map has, under the file's own name, the
  syntactic diagnostics the language service gives for the file's URL, converted by
  \<open>makeLspDiagnostic\<close>; the files map holds what the compiler wrote while emitting these
  files, in order, a later write to the same name replacing an earlier one. This is the
  fast pass: the language service works on a file map that holds the input files only,
  the result is the same however (and whether) the fetch of the type declarations ends,
  and it is returned before anything else of the call is observed.
\<close>

theorem fast_pass_result:
  "promise (compileProject env fs im) = Inr res \<longrightarrow>
     (\<forall>f\<in>set fs. isTsOrJsFile (name f) \<longrightarrow>
        map_of (result_diagnostics res) (name f)
          = Some (map (makeLspDiagnostic env)
                   (getSyntacticDiagnostics env (fastHost env fs) (inputUrl env f)))) \<and>
     (\<exists>program. getProgram env (fastHost env fs) = Some program \<and>
        map_of (result_files res)
          = map_of (rev (concat
              (map (\<lambda>f. emit env program (getSourceFile env program (inputUrl env f))
                            (transformerOf env im))
                 (filter (\<lambda>f. isTsOrJsFile (name f)) fs))))) \<and>
     fst ` set (inputFileMap env fs) = inputUrl env ` {f \<in> set fs. isTsOrJsFile (name f)} \<and>
     (\<forall>g. promise (compileProject (env\<lparr>getFiles := g\<rparr>) fs im) = Inr res) \<and>
     (\<exists>later. trace (compileProject env fs im) = Returned res # later)"
proof
  assume r: "promise (compileProject env fs im) = Inr res"
  from emitted_files [OF r] obtain program where
    p: "getProgram env (fastHost env fs) = Some program"
    and e: "result_files res
       = fold (\<lambda>(k, v). AList.update k v)
           (concat (map (\<lambda>f. emit env program (getSourceFile env program (inputUrl env f))
                              (transformerOf env im))
                      (filter (\<lambda>f. isTsOrJsFile (name f)) fs))) []"
    by blast
  have files: "\<exists>program. getProgram env (fastHost env fs) = Some program \<and>
        map_of (result_files res)
          = map_of (rev (concat
              (map (\<lambda>f. emit env program (getSourceFile env program (inputUrl env f))
                            (transformerOf env im))
                 (filter (\<lambda>f. isTsOrJsFile (name f)) fs))))"
    using p by (simp add: e fold_update_map_of)
  have later: "\<exists>later. trace (compileProject env fs im) = Returned res # later"
    using r trace_cases [of env fs im] by auto
  show "(\<forall>f\<in>set fs. isTsOrJsFile (name f) \<longrightarrow>
        map_of (result_diagnostics res) (name f)
          = Some (map (makeLspDiagnostic env)
                   (getSyntacticDiagnostics env (fastHost env fs) (inputUrl env f)))) \<and>
     (\<exists>program. getProgram env (fastHost env fs) = Some program \<and>
        map_of (result_files res)
          = map_of (rev (concat
              (map (\<lambda>f. emit env program (getSourceFile env program (inputUrl env f))
                            (transformerOf env im))
                 (filter (\<lambda>f. isTsOrJsFile (name f)) fs))))) \<and>
     fst ` set (inputFileMap env fs) = inputUrl env ` {f \<in> set fs. isTsOrJsFile (name f)} \<and>
     (\<forall>g. promise (compileProject (env\<lparr>getFiles := g\<rparr>) fs im) = Inr res) \<and>
     (\<exists>later. trace (compileProject env fs im) = Returned res # later)"
    using fast_diagnostics_value [OF r] files later
    by (simp add: inputFileMap_keys promise_getFiles r)
qed

theorem fast_pass_result_witness:
  "promise (compileProject sampleEnv sampleFiles []) = Inr sampleResult \<and>
   isTsOrJsFile ''a.ts'' \<and>
   map_of (result_diagnostics sampleResult) ''a.ts''
     = Some (map (makeLspDiagnostic sampleEnv)
              (getSyntacticDiagnostics sampleEnv (fastHost sampleEnv sampleFiles)
                 ''http://localhost/a.ts'')) \<and>
   map_of (result_diagnostics sampleResult) ''a.ts''
     = Some [makeLspDiagnostic sampleEnv sampleDiagnostic] \<and>
   map_of (result_files sampleResult) ''http://localhost/a.js''
     = Some ''https://unpkg.com/lit?module./util.js'' \<and>
   fst ` set (inputFileMap sampleEnv sampleFiles) = {''http://localhost/a.ts''} \<and>
   promise (compileProject (sampleEnv\<lparr>getFiles := (\<lambda>importMap reqs. NeverSettled)\<rparr>)
              sampleFiles []) = Inr sampleResult"
proof -
  have r: "promise (compileProject sampleEnv sampleFiles []) = Inr sampleResult"
    by (simp add: sample_compile)
  have a: "\<lparr> name = ''a.ts'', content = ''let a'', contentType = Some ''video/mp2t'' \<rparr>
      \<in> set sampleFiles"
    by (simp add: sampleFiles_def)
  have ts: "isTsOrJsFile ''a.ts''"
    by (simp add: isTsOrJsFile_def endsWith_def)
  note t = mp [OF fast_pass_result [of sampleEnv sampleFiles "[]" sampleResult] r]
  from t a ts have d: "map_of (result_diagnostics sampleResult) ''a.ts''
     = Some (map (makeLspDiagnostic sampleEnv)
              (getSyntacticDiagnostics sampleEnv (fastHost sampleEnv sampleFiles)
                 (inputUrl sampleEnv
                    \<lparr> name = ''a.ts'', content = ''let a'', contentType = Some ''video/mp2t'' \<rparr>)))"
    by fastforce
  have u: "inputUrl sampleEnv
             \<lparr> name = ''a.ts'', content = ''let a'', contentType = Some ''video/mp2t'' \<rparr>
      = ''http://localhost/a.ts''"
    by (simp add: inputUrl_def sample_env_fields)
  from t have k: "fst ` set (inputFileMap sampleEnv sampleFiles)
      = inputUrl sampleEnv ` {f \<in> set sampleFiles. isTsOrJsFile (name f)}"
    by blast
  have k': "{f \<in> set sampleFiles. isTsOrJsFile (name f)}
      = {\<lparr> name = ''a.ts'', content = ''let a'', contentType = Some ''video/mp2t'' \<rparr>}"
    by (auto simp: sampleFiles_def isTsOrJsFile_def endsWith_def)
  from t have g: "promise (compileProject
        (sampleEnv\<lparr>getFiles := (\<lambda>importMap reqs. NeverSettled)\<rparr>) sampleFiles [])
      = Inr sampleResult"
    by blast
  have v: "map_of (result_diagnostics sampleResult) ''a.ts''
       = Some [makeLspDiagnostic sampleEnv sampleDiagnostic]"
    "map_of (result_files sampleResult) ''http://localhost/a.js''
       = Some ''https://unpkg.com/lit?module./util.js''"
    by (simp_all add: sampleResult_def)
  from r ts d k g v show ?thesis
    by (simp only: u k' image_insert image_empty)
qed

lemma callback_in_trace:
  assumes "SlowDiagnosticsCallback d \<in> set (trace (compileProject env fs im))"
  shows "\<exists>res fetched.
     promise (compileProject env fs im) = Inr res \<and>
     getFiles env im (typeRequests env fs) = Fulfilled fetched \<and>
     loadedFiles (compileProject env fs im) = addTypeFiles env fetched (inputFileMap env fs) \<and>
     trace (compileProject env fs im)
       = Returned res # map (\<lambda>(s, c). TypeFileSet (typeFileUrl env s) c) fetched
           @ [SlowDiagnosticsCallback d] \<and>
     d = slowPass env
           (WorkerLanguageServiceHost (addTypeFiles env fetched (inputFileMap env fs))
              (origin env) compilerOptions)
           (inputFiles env fs) []"
  using assms trace_cases [of env fs im]
  by (auto split: prod.splits)




text \<open>
  C8. \<open>compileProject\<close> ignores every input file whose name does not end in \<open>.ts\<close> or
  \<open>.js\<close>: the whole call (its result, its file map, its requests to the types
  fetcher, its callback) is the same as on the input without these files. Every entry
  of the file map of the fast pass is the URL and the content of an input file whose
  name ends in \<open>.ts\<close> or \<open>.js\<close>, every file in the result was written while emitting
  such a file, and the keys of the fast diagnostics and of the slow diagnostics given to
  the callback are exactly the names of these files, so no other name is a key.
\<close>

theorem non_script_files_ignored:
  "compileProject env fs im = compileProject env (filter (\<lambda>f. isTsOrJsFile (name f)) fs) im \<and>
   (\<forall>(u, r)\<in>set (inputFileMap env fs).
      \<exists>f\<in>set fs. isTsOrJsFile (name f) \<and> u = inputUrl env f \<and> r = Resolved None (content f)) \<and>
   (\<forall>res. promise (compileProject env fs im) = Inr res \<longrightarrow>
      fst ` set (result_diagnostics res) = name ` {f \<in> set fs. isTsOrJsFile (name f)} \<and>
      (\<forall>n. \<not> isTsOrJsFile n \<longrightarrow> map_of (result_diagnostics res) n = None) \<and>
      (\<forall>fileName\<in>fst ` set (result_files res).
         \<exists>program. getProgram env (fastHost env fs) = Some program \<and>
           (\<exists>f\<in>set fs. isTsOrJsFile (name f) \<and>
              fileName \<in> fst ` set (emit env program (getSourceFile env program (inputUrl env f))
                                      (transformerOf env im))))) \<and>
   (\<forall>d. SlowDiagnosticsCallback d \<in> set (trace (compileProject env fs im)) \<longrightarrow>
      fst ` set d = name ` {f \<in> set fs. isTsOrJsFile (name f)} \<and>
      (\<forall>n. \<not> isTsOrJsFile n \<longrightarrow> map_of d n = None))"
proof -
  have c1: "compileProject env fs im
      = compileProject env (filter (\<lambda>f. isTsOrJsFile (name f)) fs) im"
    by (simp add: compileProject_def inputFiles_filter)
  have c2: "\<forall>(u, r)\<in>set (inputFileMap env fs).
      \<exists>f\<in>set fs. isTsOrJsFile (name f) \<and> u = inputUrl env f \<and> r = Resolved None (content f)"
  proof (intro ballI, clarify)
    fix u r assume "(u, r) \<in> set (inputFileMap env fs)"
    then obtain f where "(f, u) \<in> set (inputFiles env fs)" "r = Resolved None (content f)"
      unfolding inputFileMap_def by (auto dest: loadInputs_entries)
    then show "\<exists>f\<in>set fs. isTsOrJsFile (name f) \<and> u = inputUrl env f \<and> r = Resolved None (content f)"
      by (auto simp: inputFiles_def inputUrl_def)
  qed
  have c3: "\<forall>res. promise (compileProject env fs im) = Inr res \<longrightarrow>
      fst ` set (result_diagnostics res) = name ` {f \<in> set fs. isTsOrJsFile (name f)} \<and>
      (\<forall>n. \<not> isTsOrJsFile n \<longrightarrow> map_of (result_diagnostics res) n = None) \<and>
      (\<forall>fileName\<in>fst ` set (result_files res).
         \<exists>program. getProgram env (fastHost env fs) = Some program \<and>
           (\<exists>f\<in>set fs. isTsOrJsFile (name f) \<and>
              fileName \<in> fst ` set (emit env program (getSourceFile env program (inputUrl env f))
                                      (transformerOf env im))))"
  proof (intro allI impI)
    fix res assume r: "promise (compileProject env fs im) = Inr res"
    have k: "fst ` set (result_diagnostics res) = name ` {f \<in> set fs. isTsOrJsFile (name f)}"
      by (rule fast_diagnostics_keys [OF r])
    have no: "\<forall>n. \<not> isTsOrJsFile n \<longrightarrow> map_of (result_diagnostics res) n = None"
    proof (intro allI impI)
      fix n assume "\<not> isTsOrJsFile n"
      then have "n \<notin> fst ` set (result_diagnostics res)"
        unfolding k by auto
      then show "map_of (result_diagnostics res) n = None"
        by (simp add: map_of_eq_None_iff)
    qed
    from emitted_files [OF r] obtain program where
      p: "getProgram env (fastHost env fs) = Some program"
      and e: "result_files res
         = fold (\<lambda>(k, v). AList.update k v)
             (concat (map (\<lambda>f. emit env program (getSourceFile env program (inputUrl env f))
                                (transformerOf env im))
                        (filter (\<lambda>f. isTsOrJsFile (name f)) fs))) []"
      by blast
    have em: "\<forall>fileName\<in>fst ` set (result_files res).
         \<exists>program. getProgram env (fastHost env fs) = Some program \<and>
           (\<exists>f\<in>set fs. isTsOrJsFile (name f) \<and>
              fileName \<in> fst ` set (emit env program (getSourceFile env program (inputUrl env f))
                                      (transformerOf env im)))"
    proof
      fix fileName assume "fileName \<in> fst ` set (result_files res)"
      then have "\<exists>f\<in>set fs. isTsOrJsFile (name f) \<and>
          fileName \<in> fst ` set (emit env program (getSourceFile env program (inputUrl env f))
                                  (transformerOf env im))"
        unfolding e fold_update_keys by auto
      with p show "\<exists>program. getProgram env (fastHost env fs) = Some program \<and>
           (\<exists>f\<in>set fs. isTsOrJsFile (name f) \<and>
              fileName \<in> fst ` set (emit env program (getSourceFile env program (inputUrl env f))
                                      (transformerOf env im)))"
        by blast
    qed
    from k no em show "fst ` set (result_diagnostics res) = name ` {f \<in> set fs. isTsOrJsFile (name f)} \<and>
      (\<forall>n. \<not> isTsOrJsFile n \<longrightarrow> map_of (result_diagnostics res) n = None) \<and>
      (\<forall>fileName\<in>fst ` set (result_files res).
         \<exists>program. getProgram env (fastHost env fs) = Some program \<and>
           (\<exists>f\<in>set fs. isTsOrJsFile (name f) \<and>
              fileName \<in> fst ` set (emit env program (getSourceFile env program (inputUrl env f))
                                      (transformerOf env im))))"
      by (intro conjI)
  qed
  have c4: "\<forall>d. SlowDiagnosticsCallback d \<in> set (trace (compileProject env fs im)) \<longrightarrow>
      fst ` set d = name ` {f \<in> set fs. isTsOrJsFile (name f)} \<and>
      (\<forall>n. \<not> isTsOrJsFile n \<longrightarrow> map_of d n = None)"
  proof (intro allI impI)
    fix d assume d: "SlowDiagnosticsCallback d \<in> set (trace (compileProject env fs im))"
    from callback_in_trace [OF d] obtain fetched where
      s: "d = slowPass env
             (WorkerLanguageServiceHost (addTypeFiles env fetched (inputFileMap env fs))
                (origin env) compilerOptions)
             (inputFiles env fs) []"
      by blast
    have k: "fst ` set d = name ` {f \<in> set fs. isTsOrJsFile (name f)}"
      unfolding s by (simp add: slowPass_keys inputFiles_names)
    have no: "\<forall>n. \<not> isTsOrJsFile n \<longrightarrow> map_of d n = None"
    proof (intro allI impI)
      fix n assume "\<not> isTsOrJsFile n"
      then have "n \<notin> fst ` set d"
        unfolding k by auto
      then show "map_of d n = None"
        by (simp add: map_of_eq_None_iff)
    qed
    from k no show "fst ` set d = name ` {f \<in> set fs. isTsOrJsFile (name f)} \<and>
      (\<forall>n. \<not> isTsOrJsFile n \<longrightarrow> map_of d n = None)"
      by (intro conjI)
  qed
  from c1 c2 c3 c4 show ?thesis
    by (intro conjI)
qed

theorem non_script_files_ignored_witness:
  "compileProject sampleEnv sampleFiles []
     = compileProject sampleEnv
         [\<lparr> name = ''a.ts'', content = ''let a'', contentType = Some ''video/mp2t'' \<rparr>] [] \<and>
   \<not> isTsOrJsFile ''index.html'' \<and>
   promise (compileProject sampleEnv sampleFiles []) = Inr sampleResult \<and>
   fst ` set (result_diagnostics sampleResult) = {''a.ts''} \<and>
   map_of (result_diagnostics sampleResult) ''index.html'' = None \<and>
   SlowDiagnosticsCallback [(''a.ts'', [])] \<in> set (trace (compileProject sampleEnv sampleFiles [])) \<and>
   map_of [(''a.ts'', [])] ''index.html'' = (None :: LspDiagnostic list option) \<and>
   inputFileMap sampleEnv sampleFiles = [(''http://localhost/a.ts'', Resolved None ''let a'')]"
proof -
  note t = non_script_files_ignored [of sampleEnv sampleFiles "[]"]
  have flt: "filter (\<lambda>f. isTsOrJsFile (name f)) sampleFiles
      = [\<lparr> name = ''a.ts'', content = ''let a'', contentType = Some ''video/mp2t'' \<rparr>]"
    by (simp add: sampleFiles_def isTsOrJsFile_def endsWith_def)
  have html: "\<not> isTsOrJsFile ''index.html''"
    by (simp add: isTsOrJsFile_def endsWith_def)
  have r: "promise (compileProject sampleEnv sampleFiles []) = Inr sampleResult"
    and d: "SlowDiagnosticsCallback [(''a.ts'', [])]
      \<in> set (trace (compileProject sampleEnv sampleFiles []))"
    by (simp_all add: sample_compile)
  from t [THEN conjunct1]
  have eq: "compileProject sampleEnv sampleFiles []
      = compileProject sampleEnv (filter (\<lambda>f. isTsOrJsFile (name f)) sampleFiles) []" .
  from mp [OF spec [OF t [THEN conjunct2, THEN conjunct2, THEN conjunct1]] r] html
  have fast: "map_of (result_diagnostics sampleResult) ''index.html'' = None"
    by blast
  from mp [OF spec [OF t [THEN conjunct2, THEN conjunct2, THEN conjunct2]] d] html
  have slow: "map_of [(''a.ts'', [])] ''index.html'' = (None :: LspDiagnostic list option)"
    by blast
  have keys: "fst ` set (result_diagnostics sampleResult) = {''a.ts''}"
    by (simp add: sampleResult_def)
  have m: "inputFileMap sampleEnv sampleFiles
      = [(''http://localhost/a.ts'', Resolved None ''let a'')]"
    by (simp add: inputFileMap_def sample_inputs)
  from eq html r fast slow d keys m show ?thesis
    unfolding flt by blast
qed

end
